theory Spec2Isabelle
  imports Complex_Main
begin

section \<open>JavaScript values and effects shared by the components\<close>

text \<open>
  Every error the sources create or rethrow is a JavaScript \<open>Error\<close> object; only its
  message is ever read. An asynchronous operation is a function of the outside world
  \<open>'w\<close> (network, clock, timers) that returns either the error it threw (\<open>Inl\<close>) or
  its value (\<open>Inr\<close>), together with the world it leaves behind. The runtime gives the two
  effects the wrappers use themselves: \<open>Date.now()\<close> and the suspension
  \<open>await new Promise(resolve => setTimeout(resolve, ms))\<close>. Calls to the logger are
  not part of the model.
\<close>

datatype js_error = Error string

type_synonym ('w, 'a) operation = "'w \<Rightarrow> (js_error + 'a) \<times> 'w"

record 'w runtime =
  now :: "'w \<Rightarrow> int"
  sleep :: "rat \<Rightarrow> 'w \<Rightarrow> 'w"

section \<open>retry.js: RetryOperation\<close>

record RetryOperation =
  maxAttempts :: int
  delay :: rat
  backoffFactor :: rat
  retry_name :: string

record RetryOptions =
  opt_maxAttempts :: "int option"
  opt_delay :: "rat option"
  opt_backoffFactor :: "rat option"
  opt_retry_name :: "string option"

text \<open>\<open>options.x || d\<close>: a missing, zero or empty value takes the default.\<close>

definition or_default :: "'a option \<Rightarrow> 'a \<Rightarrow> 'a \<Rightarrow> 'a" where
  "or_default v falsy d = (case v of None \<Rightarrow> d | Some x \<Rightarrow> if x = falsy then d else x)"

definition new_RetryOperation :: "RetryOptions \<Rightarrow> RetryOperation" where
  "new_RetryOperation options =
     \<lparr> maxAttempts = or_default (opt_maxAttempts options) 0 3,
       delay = or_default (opt_delay options) 0 1000,
       backoffFactor = or_default (opt_backoffFactor options) 0 2,
       retry_name = or_default (opt_retry_name options) [] ''unnamed'' \<rparr>"

text \<open>
  The \<open>while (attempt <= this.maxAttempts)\<close> loop of \<open>execute\<close>, entered with
  \<open>attempt = 1\<close>. A successful attempt returns its value (\<open>Some\<close>); the failure of
  attempt number \<open>maxAttempts\<close> is rethrown as it is; any other failure is followed by a
  suspension of \<open>delay * Math.pow(backoffFactor, attempt - 1)\<close> and the next attempt.
  A loop that is left without an attempt returns \<open>undefined\<close> (\<open>None\<close>).
\<close>

function retry_loop ::
  "'w runtime \<Rightarrow> RetryOperation \<Rightarrow> ('w, 'a) operation \<Rightarrow> int \<Rightarrow> 'w \<Rightarrow> (js_error + 'a option) \<times> 'w"
where
  "retry_loop rt r operation attempt w =
     (if attempt \<le> maxAttempts r then
        (case fst (operation w) of
           Inr v \<Rightarrow> (Inr (Some v), snd (operation w))
         | Inl error \<Rightarrow>
             if attempt = maxAttempts r then (Inl error, snd (operation w))
             else retry_loop rt r operation (attempt + 1)
                    (sleep rt (delay r * backoffFactor r ^ nat (attempt - 1)) (snd (operation w))))
      else (Inr None, w))"
  by pat_completeness auto
termination
  by (relation "measure (\<lambda>(rt, r, operation, attempt, w). nat (maxAttempts r + 1 - attempt))") auto

definition RetryOperation_execute ::
  "'w runtime \<Rightarrow> RetryOperation \<Rightarrow> ('w, 'a) operation \<Rightarrow> ('w, 'a option) operation"
where
  "RetryOperation_execute rt r operation w = retry_loop rt r operation 1 w"

section \<open>circuit-breaker.js: CircuitBreaker\<close>

record CircuitBreaker =
  failureThreshold :: int
  resetTimeout :: int
  failureCount :: int
  isOpen :: bool
  lastFailureTime :: "int option"
  name :: string

record CircuitBreakerOptions =
  opt_failureThreshold :: "int option"
  opt_resetTimeout :: "int option"
  opt_name :: "string option"

record CircuitBreakerState =
  state_isOpen :: bool
  state_failureCount :: int
  state_lastFailureTime :: "int option"

definition new_CircuitBreaker :: "CircuitBreakerOptions \<Rightarrow> CircuitBreaker" where
  "new_CircuitBreaker options =
     \<lparr> failureThreshold = or_default (opt_failureThreshold options) 0 5,
       resetTimeout = or_default (opt_resetTimeout options) 0 60000,
       failureCount = 0,
       isOpen = False,
       lastFailureTime = None,
       name = or_default (opt_name options) [] ''unnamed'' \<rparr>"

definition success :: "CircuitBreaker \<Rightarrow> CircuitBreaker" where
  "success cb = cb\<lparr>failureCount := 0, isOpen := False\<rparr>"

text \<open>\<open>failure()\<close> reads the clock of the world the failed operation left behind.\<close>

definition failure :: "int \<Rightarrow> CircuitBreaker \<Rightarrow> CircuitBreaker" where
  "failure date_now cb =
     (let cb1 = cb\<lparr>failureCount := failureCount cb + 1, lastFailureTime := Some date_now\<rparr>
      in if failureCount cb1 \<ge> failureThreshold cb1 then cb1\<lparr>isOpen := True\<rparr> else cb1)"

definition reset :: "CircuitBreaker \<Rightarrow> CircuitBreaker" where
  "reset cb = cb\<lparr>failureCount := 0, isOpen := False, lastFailureTime := None\<rparr>"

definition getState :: "CircuitBreaker \<Rightarrow> CircuitBreakerState" where
  "getState cb =
     \<lparr> state_isOpen = isOpen cb,
       state_failureCount = failureCount cb,
       state_lastFailureTime = lastFailureTime cb \<rparr>"

text \<open>The \<open>try\<close> block of \<open>execute\<close>: run the operation, then \<open>success()\<close> or \<open>failure()\<close>.\<close>

definition attempt_call ::
  "'w runtime \<Rightarrow> CircuitBreaker \<Rightarrow> ('w, 'a) operation \<Rightarrow> 'w \<Rightarrow> (js_error + 'a) \<times> CircuitBreaker \<times> 'w"
where
  "attempt_call rt cb operation w =
     (case fst (operation w) of
        Inr result \<Rightarrow> (Inr result, success cb, snd (operation w))
      | Inl error \<Rightarrow> (Inl error, failure (now rt (snd (operation w))) cb, snd (operation w)))"

text \<open>
  \<open>Date.now() - this.lastFailureTime\<close> subtracts 0 when \<open>lastFailureTime\<close> is
  \<open>null\<close>.
\<close>

definition CircuitBreaker_execute ::
  "'w runtime \<Rightarrow> CircuitBreaker \<Rightarrow> ('w, 'a) operation \<Rightarrow> 'w \<Rightarrow> (js_error + 'a) \<times> CircuitBreaker \<times> 'w"
where
  "CircuitBreaker_execute rt cb operation w =
     (if isOpen cb then
        (if now rt w - (case lastFailureTime cb of None \<Rightarrow> 0 | Some t \<Rightarrow> t) \<ge> resetTimeout cb
         then attempt_call rt (reset cb) operation w
         else (Inl (Error (''Circuit breaker is open for '' @ name cb)), cb, w))
      else attempt_call rt cb operation w)"

text \<open>A run of \<open>execute\<close> calls on one breaker, one operation after the other.\<close>

fun execute_each ::
  "'w runtime \<Rightarrow> CircuitBreaker \<Rightarrow> ('w, 'a) operation list \<Rightarrow> 'w \<Rightarrow> CircuitBreaker \<times> 'w"
where
  "execute_each rt cb [] w = (cb, w)"
| "execute_each rt cb (operation # rest) w =
     execute_each rt (fst (snd (CircuitBreaker_execute rt cb operation w))) rest
       (snd (snd (CircuitBreaker_execute rt cb operation w)))"

section \<open>monitor-subscriptions.js: the connection supervisor (HiveMonitor)\<close>

text \<open>
  \<open>bot\<close> and \<open>observer\<close> are \<open>null\<close> (\<open>None\<close>) or an instance. The upstream client's
  \<open>bot.start()\<close> is an operation of the outside world, passed as \<open>start\<close>.
\<close>

record HiveMonitor =
  bot :: "unit option"
  observer :: "unit option"
  isConnected :: bool
  reconnectAttempts :: int
  maxReconnectAttempts :: int
  reconnectDelay :: rat
  circuitBreaker :: CircuitBreaker
  retry :: RetryOperation

definition new_HiveMonitor :: HiveMonitor where
  "new_HiveMonitor =
     \<lparr> bot = None, observer = None, isConnected = False, reconnectAttempts = 0,
       maxReconnectAttempts = 5, reconnectDelay = 5000,
       circuitBreaker = new_CircuitBreaker
         \<lparr> opt_failureThreshold = Some 3, opt_resetTimeout = Some 60000,
           opt_name = Some ''hive-connection'' \<rparr>,
       retry = new_RetryOperation
         \<lparr> opt_maxAttempts = Some 5, opt_delay = Some 5000, opt_backoffFactor = Some (3 / 2),
           opt_retry_name = Some ''hive-connection'' \<rparr> \<rparr>"

text \<open>
  The callback handed to \<open>retry.execute\<close> inside \<open>connect\<close> writes fields of the monitor,
  so the wrappers thread the monitor together with the outside world.
\<close>

definition monitor_runtime :: "'w runtime \<Rightarrow> (HiveMonitor \<times> 'w) runtime" where
  "monitor_runtime rt =
     \<lparr> now = (\<lambda>mw. now rt (snd mw)), sleep = (\<lambda>ms mw. (fst mw, sleep rt ms (snd mw))) \<rparr>"

definition connect_attempt :: "('w, unit) operation \<Rightarrow> (HiveMonitor \<times> 'w, unit) operation" where
  "connect_attempt start mw =
     (let m1 = (fst mw)\<lparr>bot := Some ()\<rparr>
      in case fst (start (snd mw)) of
           Inl error \<Rightarrow> (Inl error, (m1, snd (start (snd mw))))
         | Inr u \<Rightarrow> (Inr (), (m1\<lparr>isConnected := True, reconnectAttempts := 0\<rparr>, snd (start (snd mw)))))"

definition connect ::
  "'w runtime \<Rightarrow> ('w, unit) operation \<Rightarrow> HiveMonitor \<Rightarrow> 'w \<Rightarrow> (js_error + unit) \<times> HiveMonitor \<times> 'w"
where
  "connect rt start m w =
     (if isConnected m then (Inr (), m, w)
      else
        (let r = CircuitBreaker_execute (monitor_runtime rt) (circuitBreaker m)
                   (RetryOperation_execute (monitor_runtime rt) (retry m) (connect_attempt start))
                   (m, w)
         in (case fst r of Inl error \<Rightarrow> Inl error | Inr u \<Rightarrow> Inr (),
             (fst (snd (snd r)))\<lparr>circuitBreaker := fst (snd r)\<rparr>,
             snd (snd (snd r)))))"

definition handleDisconnect ::
  "'w runtime \<Rightarrow> ('w, unit) operation \<Rightarrow> HiveMonitor \<Rightarrow> 'w \<Rightarrow> (js_error + unit) \<times> HiveMonitor \<times> 'w"
where
  "handleDisconnect rt start m w =
     (let m1 = m\<lparr>isConnected := False, observer := None\<rparr>
      in if reconnectAttempts m1 < maxReconnectAttempts m1 then
           connect rt start (m1\<lparr>reconnectAttempts := reconnectAttempts m1 + 1\<rparr>)
             (sleep rt (reconnectDelay m1) w)
         else (Inl (Error ''Failed to maintain Hive connection''), m1, w))"

section \<open>JavaScript Date: the day of the month\<close>

text \<open>
  A \<open>Date\<close> is its time value in milliseconds, taken as local time; the model assumes a
  constant offset between local time and UTC, so that comparing two dates compares their
  time values. \<open>Day\<close>, \<open>TimeWithinDay\<close> and \<open>MakeDate\<close> are the abstract operations of
  ECMAScript. \<open>month_start d\<close> is the day number of the first day of the month that holds
  day \<open>d\<close>, found by walking month by month from January 1970 (month index 0, day 0).
\<close>

definition msPerDay :: int where
  "msPerDay = 86400000"

definition Day :: "int \<Rightarrow> int" where
  "Day t = t div msPerDay"

definition TimeWithinDay :: "int \<Rightarrow> int" where
  "TimeWithinDay t = t mod msPerDay"

definition MakeDate :: "int \<Rightarrow> int \<Rightarrow> int" where
  "MakeDate day time = day * msPerDay + time"

definition is_leap :: "int \<Rightarrow> bool" where
  "is_leap y = (y mod 4 = 0 \<and> (y mod 400 = 0 \<or> y mod 100 \<noteq> 0))"

definition days_in_month :: "int \<Rightarrow> int \<Rightarrow> int" where
  "days_in_month y m =
     (if m = 1 then (if is_leap y then 29 else 28)
      else if m = 3 \<or> m = 5 \<or> m = 8 \<or> m = 10 then 30
      else 31)"

definition month_len :: "int \<Rightarrow> int" where
  "month_len mi = days_in_month (1970 + mi div 12) (mi mod 12)"

function month_start_from :: "int \<Rightarrow> int \<Rightarrow> int \<Rightarrow> int" where
  "month_start_from mi s d =
     (if d < s then month_start_from (mi - 1) (s - month_len (mi - 1)) d
      else if s + month_len mi \<le> d then month_start_from (mi + 1) (s + month_len mi) d
      else s)"
  by pat_completeness auto
termination
proof (relation "measure (\<lambda>(mi, s, d). if d < s then nat (s - d) + 31 else nat (d - s))")
  show "wf (measure (\<lambda>(mi, s, d). if d < s then nat (s - d) + 31 else nat (d - s)))"
    by simp
next
  fix mi s d :: int
  assume "d < s"
  moreover have "28 \<le> month_len (mi - 1) \<and> month_len (mi - 1) \<le> 31"
    by (simp add: month_len_def days_in_month_def)
  ultimately show "((mi - 1, s - month_len (mi - 1), d), (mi, s, d))
      \<in> measure (\<lambda>(mi, s, d). if d < s then nat (s - d) + 31 else nat (d - s))"
    by auto
next
  fix mi s d :: int
  assume "\<not> d < s" and "s + month_len mi \<le> d"
  moreover have "28 \<le> month_len mi \<and> month_len mi \<le> 31"
    by (simp add: month_len_def days_in_month_def)
  ultimately show "((mi + 1, s + month_len mi, d), (mi, s, d))
      \<in> measure (\<lambda>(mi, s, d). if d < s then nat (s - d) + 31 else nat (d - s))"
    by auto
qed

definition month_start :: "int \<Rightarrow> int" where
  "month_start d = month_start_from 0 0 d"

text \<open>
  \<open>getDate()\<close> is the day of the month, counted from 1. \<open>setDate(dt)\<close> keeps the year, the
  month and the time within the day, and puts the date on day \<open>dt\<close> counted from the first
  of that month, running over into the following months when \<open>dt\<close> is past its end.
\<close>

definition getDate :: "int \<Rightarrow> int" where
  "getDate t = Day t - month_start (Day t) + 1"

definition setDate :: "int \<Rightarrow> int \<Rightarrow> int" where
  "setDate t dt = MakeDate (month_start (Day t) + dt - 1) (TimeWithinDay t)"

section \<open>init.sql and monitor-subscriptions.js: the subscription ledger\<close>

record subscription_row =
  subscription_date :: int
  expiration_date :: int
  date_updated :: int
  active_subscription :: bool

type_synonym subscriptions = "string \<rightharpoonup> subscription_row"

text \<open>
  What one call meets outside the program: the clock read by \<open>new Date()\<close>, the database's
  \<open>CURRENT_TIMESTAMP\<close>, and whether \<open>db.query\<close> throws on the SELECT or on the upsert.
  The upsert also fails on a username that does not fit \<open>VARCHAR(16)\<close>.
\<close>

record db_call =
  js_now :: int
  sql_now :: int
  select_throws :: bool
  upsert_throws :: bool

definition upsert_row :: "int \<Rightarrow> int \<Rightarrow> db_call \<Rightarrow> subscription_row" where
  "upsert_row subscriptionDate expirationDate env =
     \<lparr> subscription_date = subscriptionDate, expiration_date = expirationDate,
       date_updated = sql_now env, active_subscription = True \<rparr>"

text \<open>
  The \<open>INSERT ... ON CONFLICT (username) DO UPDATE\<close> of \<open>addSubscription\<close> and what follows
  it: \<open>return true\<close>, or \<open>return false\<close> from the \<open>catch\<close>.
\<close>

definition insert_or_update ::
  "string \<Rightarrow> int \<Rightarrow> int \<Rightarrow> db_call \<Rightarrow> subscriptions \<Rightarrow> bool \<times> subscriptions"
where
  "insert_or_update username subscriptionDate expirationDate env db =
     (if upsert_throws env \<or> length username > 16 then (False, db)
      else (True, db(username \<mapsto> upsert_row subscriptionDate expirationDate env)))"

definition addSubscription ::
  "string \<Rightarrow> int \<Rightarrow> db_call \<Rightarrow> subscriptions \<Rightarrow> bool \<times> subscriptions"
where
  "addSubscription username days env db =
     (let subscriptionDate = js_now env;
          expirationDate = setDate subscriptionDate (getDate subscriptionDate + days)
      in if select_throws env then (False, db)
         else
           (case db username of
              Some existing \<Rightarrow>
                if subscriptionDate > expiration_date existing
                then insert_or_update username subscriptionDate
                       (setDate expirationDate (getDate subscriptionDate + days)) env db
                else (True, db)
            | None \<Rightarrow> insert_or_update username subscriptionDate expirationDate env db))"

text \<open>A run of grants to one username: each with its day count and what it meets outside.\<close>

fun grant_each :: "string \<Rightarrow> (int \<times> db_call) list \<Rightarrow> subscriptions \<Rightarrow> subscriptions" where
  "grant_each username [] db = db"
| "grant_each username (g # gs) db =
     grant_each username gs (snd (addSubscription username (fst g) (snd g) db))"

text \<open>
  The earlier \<open>processSubscriptionTransfer\<close> of the file (the upsert guarded by
  \<open>WHERE subscriptions.expiration_date < EXCLUDED.expiration_date\<close>): the window starts at
  the transfer's timestamp and lasts 31 days; a database error is logged and swallowed.
\<close>

definition processSubscriptionTransfer_guarded ::
  "string \<Rightarrow> int \<Rightarrow> db_call \<Rightarrow> subscriptions \<Rightarrow> subscriptions"
where
  "processSubscriptionTransfer_guarded sender timestamp env db =
     (let subscriptionDate = timestamp;
          expirationDate = subscriptionDate + 31 * msPerDay
      in if upsert_throws env \<or> length sender > 16 then db
         else
           (case db sender of
              None \<Rightarrow> db(sender \<mapsto> upsert_row subscriptionDate expirationDate env)
            | Some existing \<Rightarrow>
                if expiration_date existing < expirationDate
                then db(sender \<mapsto> upsert_row subscriptionDate expirationDate env)
                else db))"

fun transfer_each :: "string \<Rightarrow> (int \<times> db_call) list \<Rightarrow> subscriptions \<Rightarrow> subscriptions" where
  "transfer_each sender [] db = db"
| "transfer_each sender (t # ts) db =
     transfer_each sender ts (processSubscriptionTransfer_guarded sender (fst t) (snd t) db)"

section \<open>monitor-subscriptions.js: the transfer classifier\<close>

text \<open>
  Strings hold ASCII characters. \<open>toLowerCase\<close> maps A-Z to a-z. A JavaScript number is
  a rational, or \<open>NaN\<close> (\<open>None\<close>); \<open>===\<close> on numbers is false when either side is \<open>NaN\<close>.
  \<open>parseFloat\<close> reads the longest decimal prefix (sign, digits, fraction) after leading
  blanks and \<open>Number\<close> wants the whole string to be a decimal literal (the empty string
  is 0). Exponents, \<open>Infinity\<close>, hexadecimal literals and the rounding of doubles are
  outside the model: amounts on the ledger are written \<open>digits.ddd\<close>.
\<close>

definition lower_char :: "char \<Rightarrow> char" where
  "lower_char c =
     (if 65 \<le> (of_char c :: nat) \<and> (of_char c :: nat) \<le> 90
      then char_of ((of_char c :: nat) + 32) else c)"

definition toLowerCase :: "string \<Rightarrow> string" where
  "toLowerCase s = map lower_char s"

definition is_digit :: "char \<Rightarrow> bool" where
  "is_digit c = (48 \<le> (of_char c :: nat) \<and> (of_char c :: nat) \<le> 57)"

definition is_word_char :: "char \<Rightarrow> bool" where
  "is_word_char c =
     (is_digit c \<or> c = CHR ''_''
      \<or> (65 \<le> (of_char c :: nat) \<and> (of_char c :: nat) \<le> 90)
      \<or> (97 \<le> (of_char c :: nat) \<and> (of_char c :: nat) \<le> 122))"

definition digits_value :: "string \<Rightarrow> nat" where
  "digits_value ds = foldl (\<lambda>a c. 10 * a + ((of_char c :: nat) - 48)) 0 ds"

text \<open>The longest decimal prefix of a string, with the rest of the string.\<close>

definition decimal_prefix :: "string \<Rightarrow> (rat \<times> string) option" where
  "decimal_prefix s =
     (let negative = (case s of c # cs \<Rightarrow> c = CHR ''-'' | [] \<Rightarrow> False);
          unsigned = (case s of c # cs \<Rightarrow> if c = CHR ''-'' \<or> c = CHR ''+'' then cs else s | [] \<Rightarrow> s);
          whole = takeWhile is_digit unsigned;
          after_whole = dropWhile is_digit unsigned;
          fraction = (case after_whole of c # cs \<Rightarrow> if c = CHR ''.'' then takeWhile is_digit cs else []
                        | [] \<Rightarrow> []);
          rest = (case after_whole of
                    c # cs \<Rightarrow> if c = CHR ''.'' \<and> (whole \<noteq> [] \<or> fraction \<noteq> [])
                              then dropWhile is_digit cs else after_whole
                  | [] \<Rightarrow> []);
          magnitude = rat_of_nat (digits_value whole)
                        + rat_of_nat (digits_value fraction) / 10 ^ length fraction
      in if whole = [] \<and> fraction = [] then None
         else Some (if negative then - magnitude else magnitude, rest))"

definition is_blank :: "char \<Rightarrow> bool" where
  "is_blank c = (c = CHR '' '' \<or> c = CHR 0x09 \<or> c = CHR 0x0A \<or> c = CHR 0x0D)"

definition parseFloat :: "string \<Rightarrow> rat option" where
  "parseFloat s = map_option fst (decimal_prefix (dropWhile is_blank s))"

definition Number :: "string \<Rightarrow> rat option" where
  "Number s =
     (let trimmed = rev (dropWhile is_blank (rev (dropWhile is_blank s)))
      in if trimmed = [] then Some 0
         else (case decimal_prefix trimmed of
                 Some (v, rest) \<Rightarrow> if rest = [] then Some v else None
               | None \<Rightarrow> None))"

definition strict_equal :: "rat option \<Rightarrow> rat option \<Rightarrow> bool" where
  "strict_equal a b = (case a of None \<Rightarrow> False | Some x \<Rightarrow> (case b of None \<Rightarrow> False | Some y \<Rightarrow> x = y))"

text \<open>
  \<open>s.split(' ')\<close>: the pieces between single blanks, empty pieces included; there is
  always a first piece, and a second one (\<open>symbol\<close>) only when the string has a blank.
\<close>

fun split_blank :: "string \<Rightarrow> string list" where
  "split_blank [] = [[]]"
| "split_blank (c # cs) =
     (if c = CHR '' '' then [] # split_blank cs
      else (case split_blank cs of p # ps \<Rightarrow> (c # p) # ps | [] \<Rightarrow> [[c]]))"

text \<open>
  \<open>memo.match(/^subscribe:(\w+)$/)\<close>: the captured group, or \<open>None\<close> for \<open>null\<close>. The
  expression has no \<open>i\<close> flag.
\<close>

definition memo_match :: "string \<Rightarrow> string option" where
  "memo_match memo =
     (if take 10 memo = ''subscribe:'' \<and> drop 10 memo \<noteq> [] \<and> list_all is_word_char (drop 10 memo)
      then Some (drop 10 memo) else None)"

text \<open>
  The variables of \<open>process.env\<close> the classifier reads. The amounts are the strings of the
  environment, converted by \<open>Number\<close> where the source converts them; the two day counts
  are the integers \<open>Number\<close> gives for them.
\<close>

record config =
  SUBSCRIPTION_PAYMENT_ACCOUNT :: string
  AI_PAYMENT_ACCOUNT :: string
  SUBSCRIPTION_ACCOUNT :: string
  SUBSCRIPTION_AMOUNT :: string
  AI_SUBSCRIPTION_FULL_AMOUNT :: string
  AI_SUBSCRIPTION_MINI_AMOUNT :: string
  AI_SUBSCRIPTION_FULL_DAYS :: int
  AI_SUBSCRIPTION_MINI_DAYS :: int

text \<open>\<open>opData\<close>, the second element of \<open>operation.op\<close>, and the operation itself.\<close>

record op_data =
  op_from :: string
  op_to :: string
  op_amount :: string
  op_memo :: string

record ledger_operation =
  op :: "(string \<times> op_data) option"
  timestamp :: string

text \<open>\<open>transformedTransfer\<close>: \<open>{from, to, amount: {amount, symbol}, memo, timestamp}\<close>.\<close>

record transfer =
  transfer_from :: string
  transfer_to :: string
  transfer_amount :: "rat option"
  transfer_symbol :: string
  transfer_memo :: string
  transfer_timestamp :: string

definition processSubscriptionTransfer ::
  "config \<Rightarrow> transfer \<Rightarrow> db_call \<Rightarrow> subscriptions \<Rightarrow> bool \<times> subscriptions"
where
  "processSubscriptionTransfer cfg t env db =
     (let sender = transfer_from t; recipient = transfer_to t;
          v = transfer_amount t; symbol = transfer_symbol t; memo = transfer_memo t
      in if recipient = AI_PAYMENT_ACCOUNT cfg \<and> symbol = ''HBD''
            \<and> strict_equal v (Number (AI_SUBSCRIPTION_FULL_AMOUNT cfg))
         then addSubscription sender (AI_SUBSCRIPTION_FULL_DAYS cfg) env db
         else if recipient = AI_PAYMENT_ACCOUNT cfg \<and> symbol = ''HBD''
            \<and> strict_equal v (Number (AI_SUBSCRIPTION_MINI_AMOUNT cfg))
         then addSubscription sender (AI_SUBSCRIPTION_MINI_DAYS cfg) env db
         else if recipient = SUBSCRIPTION_PAYMENT_ACCOUNT cfg
            \<and> strict_equal v (Number (SUBSCRIPTION_AMOUNT cfg)) \<and> symbol = ''HBD''
         then (case memo_match memo of
                 None \<Rightarrow> (False, db)
               | Some account \<Rightarrow>
                   if toLowerCase account \<noteq> toLowerCase (SUBSCRIPTION_ACCOUNT cfg) then (False, db)
                   else addSubscription sender 31 env db)
         else (False, db))"

text \<open>
  The callback of \<open>processOperation\<close>. It catches what \<open>processSubscriptionTransfer\<close>
  throws and returns nothing, so only the ledger it leaves behind is kept.
\<close>

definition classify_operation ::
  "config \<Rightarrow> ledger_operation \<Rightarrow> db_call \<Rightarrow> subscriptions \<Rightarrow> subscriptions"
where
  "classify_operation cfg operation env db =
     (case op operation of
        None \<Rightarrow> db
      | Some (opType, opData) \<Rightarrow>
          if (opType = ''transfer'' \<or> opType = ''fill_recurrent_transfer'')
             \<and> (op_to opData = SUBSCRIPTION_PAYMENT_ACCOUNT cfg \<or> op_to opData = AI_PAYMENT_ACCOUNT cfg)
          then
            (let pieces = split_blank (op_amount opData);
                 amountValue = (case pieces of [] \<Rightarrow> [] | p # ps \<Rightarrow> p);
                 symbol = (case pieces of p # q # ps \<Rightarrow> Some q | _ \<Rightarrow> None);
                 transferAmount = parseFloat amountValue;
                 transformedTransfer =
                   \<lparr> transfer_from = op_from opData, transfer_to = op_to opData,
                     transfer_amount = transferAmount, transfer_symbol = ''HBD'',
                     transfer_memo = op_memo opData, transfer_timestamp = timestamp operation \<rparr>
             in if op_to opData = AI_PAYMENT_ACCOUNT cfg \<and> symbol = Some ''HBD'' then
                  (if strict_equal transferAmount (Number (AI_SUBSCRIPTION_FULL_AMOUNT cfg))
                      \<or> strict_equal transferAmount (Number (AI_SUBSCRIPTION_MINI_AMOUNT cfg))
                   then snd (processSubscriptionTransfer cfg transformedTransfer env db)
                   else db)
                else if op_to opData = SUBSCRIPTION_PAYMENT_ACCOUNT cfg
                        \<and> strict_equal transferAmount (Number (SUBSCRIPTION_AMOUNT cfg))
                        \<and> symbol = Some ''HBD''
                        \<and> toLowerCase (op_memo opData)
                            = ''subscribe:'' @ toLowerCase (SUBSCRIPTION_ACCOUNT cfg)
                then snd (processSubscriptionTransfer cfg transformedTransfer env db)
                else db)
          else db)"

text \<open>
  \<open>processOperation\<close> hands the callback to \<open>this.retry.execute\<close>; the retry's suspensions
  leave the ledger as it is.
\<close>

definition ledger_runtime :: "subscriptions runtime" where
  "ledger_runtime = \<lparr> now = (\<lambda>db. 0), sleep = (\<lambda>ms db. db) \<rparr>"

definition processOperation ::
  "RetryOperation \<Rightarrow> config \<Rightarrow> ledger_operation \<Rightarrow> db_call \<Rightarrow> subscriptions
     \<Rightarrow> (js_error + unit option) \<times> subscriptions"
where
  "processOperation r cfg operation env db =
     RetryOperation_execute ledger_runtime r
       (\<lambda>ledger. (Inr (), classify_operation cfg operation env ledger)) db"

section \<open>Notions used to state and prove the properties\<close>

text \<open>
  The world in which attempt number \<open>k + 1\<close> of \<open>RetryOperation.execute\<close> starts when
  the \<open>k\<close> attempts before it failed: after each of them the caller was suspended for
  \<open>delay * backoffFactor ^ (attempt - 1)\<close>.
\<close>

fun attempt_world :: "'w runtime \<Rightarrow> RetryOperation \<Rightarrow> ('w, 'a) operation \<Rightarrow> 'w \<Rightarrow> nat \<Rightarrow> 'w" where
  "attempt_world rt r operation w 0 = w"
| "attempt_world rt r operation w (Suc k) =
     sleep rt (delay r * backoffFactor r ^ k) (snd (operation (attempt_world rt r operation w k)))"

text \<open>The day number of the first day of a month, by its index counted from January 1970.\<close>

fun first_day_up :: "nat \<Rightarrow> int" where
  "first_day_up 0 = 0"
| "first_day_up (Suc n) = first_day_up n + month_len (int n)"

fun first_day_down :: "nat \<Rightarrow> int" where
  "first_day_down 0 = 0"
| "first_day_down (Suc n) = first_day_down n - month_len (- int n - 1)"

definition first_day :: "int \<Rightarrow> int" where
  "first_day mi = (if 0 \<le> mi then first_day_up (nat mi) else first_day_down (nat (- mi)))"

section \<open>Concrete inputs\<close>

text \<open>A world that is only a clock in milliseconds, and operations on it.\<close>

definition clock_runtime :: "int runtime" where
  "clock_runtime = \<lparr> now = (\<lambda>w. w), sleep = (\<lambda>ms w. w + \<lceil>ms\<rceil>) \<rparr>"

definition always_down :: "(int, unit) operation" where
  "always_down w = (Inl (Error ''ECONNREFUSED''), w)"

definition responds :: "(int, unit) operation" where
  "responds w = (Inr (), w)"

text \<open>The breaker of the connection supervisor, and the same breaker after three failures.\<close>

definition hive_breaker :: CircuitBreaker where
  "hive_breaker = new_CircuitBreaker
     \<lparr> opt_failureThreshold = Some 3, opt_resetTimeout = Some 60000,
       opt_name = Some ''hive-connection'' \<rparr>"

definition tripped_breaker :: CircuitBreaker where
  "tripped_breaker =
     fst (execute_each clock_runtime hive_breaker [always_down, always_down, always_down] 0)"

text \<open>
  A world that counts the calls of the operation and records every suspension, with
  operations that fail with a message one character longer at every call, or fail twice
  and then return the number of the calls before.
\<close>

definition recording_runtime :: "(nat \<times> rat list) runtime" where
  "recording_runtime = \<lparr> now = (\<lambda>w. 0), sleep = (\<lambda>ms w. (fst w, snd w @ [ms])) \<rparr>"

definition always_fails :: "(nat \<times> rat list, nat) operation" where
  "always_fails w = (Inl (Error (replicate (Suc (fst w)) CHR ''!'')), (Suc (fst w), snd w))"

definition fails_twice :: "(nat \<times> rat list, nat) operation" where
  "fails_twice w =
     (if fst w < 2 then (Inl (Error ''timeout''), (Suc (fst w), snd w))
      else (Inr (fst w), (Suc (fst w), snd w)))"

text \<open>The retry settings of db.js.\<close>

definition database_retry :: RetryOperation where
  "database_retry = new_RetryOperation
     \<lparr> opt_maxAttempts = Some 3, opt_delay = Some 1000, opt_backoffFactor = Some 2,
       opt_retry_name = Some ''database'' \<rparr>"

text \<open>A retry executor that makes a single attempt.\<close>

definition single_attempt :: RetryOperation where
  "single_attempt = new_RetryOperation
     \<lparr> opt_maxAttempts = Some 1, opt_delay = Some 1000, opt_backoffFactor = Some 2,
       opt_retry_name = Some ''once'' \<rparr>"

text \<open>An upstream client that starts, and one that refuses; each call takes a millisecond.\<close>

definition start_ok :: "(int, unit) operation" where
  "start_ok w = (Inr (), w + 1)"

definition start_down :: "(int, unit) operation" where
  "start_down w = (Inl (Error ''ECONNREFUSED''), w + 1)"

text \<open>
  A connected supervisor that has used two of its five reconnection attempts, and one
  that has used all five.
\<close>

definition dropped_monitor :: HiveMonitor where
  "dropped_monitor =
     new_HiveMonitor\<lparr>bot := Some (), observer := Some (), isConnected := True,
       reconnectAttempts := 2\<rparr>"

definition exhausted_monitor :: HiveMonitor where
  "exhausted_monitor =
     new_HiveMonitor\<lparr>bot := Some (), observer := Some (), isConnected := True,
       reconnectAttempts := 5\<rparr>"

text \<open>
  Calls at noon on 15 and on 25 January 2024, a row whose window ended at noon on 10
  January 2024, and a row whose window ends at noon on 15 February 2024.
\<close>

definition noon_2024_01_15 :: db_call where
  "noon_2024_01_15 =
     \<lparr> js_now = 1705320000000, sql_now = 1705320000000,
       select_throws = False, upsert_throws = False \<rparr>"

definition noon_2024_01_25 :: db_call where
  "noon_2024_01_25 =
     \<lparr> js_now = 1706184000000, sql_now = 1706184000000,
       select_throws = False, upsert_throws = False \<rparr>"

definition lapsed_row :: subscription_row where
  "lapsed_row =
     \<lparr> subscription_date = 1702209600000, expiration_date = 1704888000000,
       date_updated = 1702209600000, active_subscription = False \<rparr>"

definition active_row :: subscription_row where
  "active_row =
     \<lparr> subscription_date = 1705320000000, expiration_date = 1707998400000,
       date_updated = 1705320000000, active_subscription = True \<rparr>"

text \<open>
  An environment of the classifier, and two transfers of 5.000 HBD to the payment account
  that differ in the case of the memo's prefix.
\<close>

definition example_config :: config where
  "example_config =
     \<lparr> SUBSCRIPTION_PAYMENT_ACCOUNT = ''leo.payments'', AI_PAYMENT_ACCOUNT = ''leo.ai'',
       SUBSCRIPTION_ACCOUNT = ''myaccount'', SUBSCRIPTION_AMOUNT = ''5'',
       AI_SUBSCRIPTION_FULL_AMOUNT = ''10'', AI_SUBSCRIPTION_MINI_AMOUNT = ''3'',
       AI_SUBSCRIPTION_FULL_DAYS = 31, AI_SUBSCRIPTION_MINI_DAYS = 7 \<rparr>"

definition upper_memo_operation :: ledger_operation where
  "upper_memo_operation =
     \<lparr> op = Some (''transfer'',
          \<lparr> op_from = ''alice'', op_to = ''leo.payments'', op_amount = ''5.000 HBD'',
            op_memo = ''SUBSCRIBE:myaccount'' \<rparr>),
       timestamp = ''2024-01-15T12:00:00'' \<rparr>"

definition lower_memo_operation :: ledger_operation where
  "lower_memo_operation =
     \<lparr> op = Some (''transfer'',
          \<lparr> op_from = ''alice'', op_to = ''leo.payments'', op_amount = ''5.000 HBD'',
            op_memo = ''subscribe:myaccount'' \<rparr>),
       timestamp = ''2024-01-15T12:00:00'' \<rparr>"

section \<open>The calendar behind getDate and setDate\<close>

declare month_start_from.simps [simp del]
declare retry_loop.simps [simp del]

lemma month_len_bounds: "28 \<le> month_len mi \<and> month_len mi \<le> 31"
  by (simp add: month_len_def days_in_month_def)

lemma first_day_step: "first_day (mi + 1) = first_day mi + month_len mi"
proof -
  consider "0 \<le> mi" | "mi = -1" | "mi < -1" by linarith
  then show ?thesis
  proof cases
    case 1
    then have "nat (mi + 1) = Suc (nat mi)" by simp
    with 1 show ?thesis by (simp add: first_day_def)
  next
    case 2
    then show ?thesis by (simp add: first_day_def)
  next
    case 3
    then have "nat (- mi) = Suc (nat (- (mi + 1)))" by simp
    moreover from 3 have "- int (nat (- (mi + 1))) - 1 = mi" by simp
    ultimately show ?thesis using 3 by (simp add: first_day_def)
  qed
qed

lemma first_day_pred: "first_day (mi - 1) = first_day mi - month_len (mi - 1)"
  using first_day_step [of "mi - 1"] by simp

lemma first_day_strict: "first_day mi < first_day (mi + 1)"
  using first_day_step [of mi] month_len_bounds [of mi] by simp

lemma first_day_mono: "mi \<le> mj \<Longrightarrow> first_day mi \<le> first_day mj"
proof (induction "nat (mj - mi)" arbitrary: mj)
  case 0
  then show ?case by simp
next
  case (Suc n)
  then have "n = nat ((mj - 1) - mi)" and "mi \<le> mj - 1" by simp_all
  then have "first_day mi \<le> first_day (mj - 1)" using Suc.hyps(1) by blast
  also have "\<dots> \<le> first_day mj" using first_day_strict [of "mj - 1"] by simp
  finally show ?case .
qed

text \<open>The walk ends on the first day of the month that holds the day it looks for.\<close>

lemma month_start_from_spec:
  "s = first_day mi \<Longrightarrow>
   \<exists>mr. month_start_from mi s d = first_day mr \<and> first_day mr \<le> d \<and> d < first_day (mr + 1)"
proof (induction mi s d rule: month_start_from.induct)
  case (1 mi s d)
  show ?case
  proof (cases "d < s")
    case True
    have "s - month_len (mi - 1) = first_day (mi - 1)"
      using "1.prems" by (simp add: first_day_pred)
    from "1.IH"(1) [OF True this] True show ?thesis
      by (subst month_start_from.simps) simp
  next
    case False
    show ?thesis
    proof (cases "s + month_len mi \<le> d")
      case True
      have "s + month_len mi = first_day (mi + 1)"
        using "1.prems" by (simp add: first_day_step)
      from "1.IH"(2) [OF False True this] False True show ?thesis
        by (subst month_start_from.simps) simp
    next
      case notfar: False
      have "month_start_from mi s d = s"
        using False notfar by (subst month_start_from.simps) simp
      moreover have "d < first_day (mi + 1)"
        using notfar "1.prems" by (simp add: first_day_step)
      ultimately show ?thesis using False "1.prems" by auto
    qed
  qed
qed

lemma month_start_spec:
  "\<exists>mr. month_start d = first_day mr \<and> first_day mr \<le> d \<and> d < first_day (mr + 1)"
  unfolding month_start_def by (rule month_start_from_spec) (simp add: first_day_def)

lemma month_start_le: "month_start d \<le> d"
  using month_start_spec [of d] by auto

lemma month_start_mono:
  assumes "d \<le> d'"
  shows "month_start d \<le> month_start d'"
proof -
  obtain mr where mr: "month_start d = first_day mr" "first_day mr \<le> d"
    using month_start_spec [of d] by auto
  obtain mr' where mr': "month_start d' = first_day mr'" "d' < first_day (mr' + 1)"
    using month_start_spec [of d'] by auto
  have "mr \<le> mr'"
  proof (rule ccontr)
    assume "\<not> mr \<le> mr'"
    then have "mr' + 1 \<le> mr" by simp
    then have "first_day (mr' + 1) \<le> first_day mr" by (rule first_day_mono)
    with mr(2) mr'(2) assms show False by simp
  qed
  then show ?thesis using mr(1) mr'(1) by (simp add: first_day_mono)
qed

lemma msPerDay_pos: "0 < msPerDay"
  by (simp add: msPerDay_def)

text \<open>\<open>d.setDate(d.getDate() + days)\<close> moves a date by whole days.\<close>

lemma setDate_getDate_add: "setDate t (getDate t + days) = t + days * msPerDay"
proof -
  have "Day t * msPerDay + TimeWithinDay t = t"
    by (simp add: Day_def TimeWithinDay_def)
  then show ?thesis
    by (simp add: setDate_def getDate_def MakeDate_def algebra_simps)
qed

lemma Day_add_days: "Day (t + days * msPerDay) = Day t + days"
  using msPerDay_pos by (simp add: Day_def)

lemma TimeWithinDay_add_days: "TimeWithinDay (t + days * msPerDay) = TimeWithinDay t"
  by (simp add: TimeWithinDay_def)

text \<open>
  Setting the day of the month of the moved date from the day of the month of the
  original date adds the distance between the two months once more.
\<close>

lemma setDate_twice:
  "setDate (setDate t (getDate t + days)) (getDate t + days) =
   t + days * msPerDay + (month_start (Day t + days) - month_start (Day t)) * msPerDay"
proof -
  define e where "e = t + days * msPerDay"
  have t: "Day t * msPerDay + TimeWithinDay t = t"
    by (simp add: Day_def TimeWithinDay_def)
  have d: "Day e = Day t + days" and w: "TimeWithinDay e = TimeWithinDay t"
    unfolding e_def by (simp_all add: Day_add_days TimeWithinDay_add_days)
  have "setDate e (getDate t + days) =
        (month_start (Day t + days) + (Day t - month_start (Day t) + 1 + days) - 1) * msPerDay
          + TimeWithinDay t"
    by (simp add: setDate_def getDate_def MakeDate_def d w)
  also have "\<dots> = (Day t * msPerDay + TimeWithinDay t) + days * msPerDay
          + (month_start (Day t + days) - month_start (Day t)) * msPerDay"
    by (simp add: algebra_simps)
  also have "\<dots> = t + days * msPerDay
          + (month_start (Day t + days) - month_start (Day t)) * msPerDay"
    using t by simp
  finally show ?thesis
    by (simp add: setDate_getDate_add e_def)
qed

lemma setDate_twice_ge:
  assumes "0 \<le> days"
  shows "t + days * msPerDay \<le> setDate (setDate t (getDate t + days)) (getDate t + days)"
proof -
  have "month_start (Day t) \<le> month_start (Day t + days)"
    using assms by (simp add: month_start_mono)
  then have "0 \<le> (month_start (Day t + days) - month_start (Day t)) * msPerDay"
    using msPerDay_pos by simp
  then show ?thesis unfolding setDate_twice by simp
qed

section \<open>The subscription ledger: addSubscription\<close>

lemma addSubscription_active:
  assumes "db username = Some existing" and "js_now env \<le> expiration_date existing"
  shows "snd (addSubscription username days env db) = db"
    and "\<not> select_throws env \<Longrightarrow> addSubscription username days env db = (True, db)"
  using assms by (simp_all add: addSubscription_def Let_def)

lemma addSubscription_new:
  assumes "db username = None" and "\<not> select_throws env" and "\<not> upsert_throws env"
    and "length username \<le> 16"
  shows "addSubscription username days env db =
         (True, db(username \<mapsto> upsert_row (js_now env) (js_now env + days * msPerDay) env))"
  using assms by (simp add: addSubscription_def Let_def insert_or_update_def setDate_getDate_add)

lemma addSubscription_lapsed:
  assumes "db username = Some existing" and "expiration_date existing < js_now env"
    and "\<not> select_throws env" and "\<not> upsert_throws env" and "length username \<le> 16"
  shows "addSubscription username days env db =
         (True, db(username \<mapsto> upsert_row (js_now env)
            (js_now env + days * msPerDay
               + (month_start (Day (js_now env) + days) - month_start (Day (js_now env))) * msPerDay)
            env))"
  using assms by (simp add: addSubscription_def Let_def insert_or_update_def setDate_twice)

lemma addSubscription_cases:
  "snd (addSubscription username days env db) = db
   \<or> (\<exists>e. snd (addSubscription username days env db) = db(username \<mapsto> upsert_row (js_now env) e env)
          \<and> (case db username of
                None \<Rightarrow> e = js_now env + days * msPerDay
              | Some existing \<Rightarrow> expiration_date existing < js_now env
                  \<and> e = setDate (setDate (js_now env) (getDate (js_now env) + days))
                          (getDate (js_now env) + days)))"
  by (simp add: addSubscription_def Let_def insert_or_update_def setDate_getDate_add
      split: option.splits)

text \<open>
  C1 (idempotence of grants). A call of \<open>addSubscription\<close> made while the username's
  stored window is still active, that is with \<open>now\<close> not after the stored
  \<open>expiration_date\<close>, leaves the ledger exactly as it was, and returns \<open>true\<close> when the
  SELECT returns. So of two grants of the same day count to the same username, the first
  made without a row or on a lapsed window and the second while the window the first one
  stored is still active, only the first changes the ledger: the first returns \<open>true\<close>
  and stores a row, the second returns \<open>true\<close> and leaves every stored field, the
  \<open>expiration_date\<close> among them, as the first call left it.
\<close>

theorem grant_in_active_window_is_noop:
  "(db username = Some existing \<and> js_now env \<le> expiration_date existing
      \<longrightarrow> snd (addSubscription username days env db) = db)
 \<and> (db username = Some existing \<and> js_now env \<le> expiration_date existing
      \<and> \<not> select_throws env
      \<longrightarrow> addSubscription username days env db = (True, db))
 \<and> ((db username = None
        \<or> (\<exists>lapsed. db username = Some lapsed \<and> expiration_date lapsed < js_now first_call))
      \<and> \<not> select_throws first_call \<and> \<not> upsert_throws first_call \<and> \<not> select_throws second_call
      \<and> length username \<le> 16 \<and> js_now first_call \<le> js_now second_call
      \<and> snd (addSubscription username days first_call db) username = Some granted
      \<and> js_now second_call \<le> expiration_date granted
      \<longrightarrow> fst (addSubscription username days first_call db)
        \<and> snd (addSubscription username days first_call db) \<noteq> db
        \<and> addSubscription username days second_call (snd (addSubscription username days first_call db))
            = (True, snd (addSubscription username days first_call db)))"
proof (intro conjI impI)
  assume "db username = Some existing \<and> js_now env \<le> expiration_date existing"
  then show "snd (addSubscription username days env db) = db"
    by (simp add: addSubscription_active)
next
  assume "db username = Some existing \<and> js_now env \<le> expiration_date existing
      \<and> \<not> select_throws env"
  then show "addSubscription username days env db = (True, db)"
    by (simp add: addSubscription_active)
next
  let ?ledger = "snd (addSubscription username days first_call db)"
  assume a: "(db username = None
        \<or> (\<exists>lapsed. db username = Some lapsed \<and> expiration_date lapsed < js_now first_call))
      \<and> \<not> select_throws first_call \<and> \<not> upsert_throws first_call \<and> \<not> select_throws second_call
      \<and> length username \<le> 16 \<and> js_now first_call \<le> js_now second_call
      \<and> ?ledger username = Some granted
      \<and> js_now second_call \<le> expiration_date granted"
  then have ok: "\<not> select_throws first_call" "\<not> upsert_throws first_call" "length username \<le> 16"
    and g: "?ledger username = Some granted" and act: "js_now second_call \<le> expiration_date granted"
    and clock: "js_now first_call \<le> js_now second_call" and sel2: "\<not> select_throws second_call"
    by simp_all
  from a have "db username = None
        \<or> (\<exists>lapsed. db username = Some lapsed \<and> expiration_date lapsed < js_now first_call)"
    by simp
  then have first: "fst (addSubscription username days first_call db) \<and> ?ledger username \<noteq> db username"
  proof
    assume none: "db username = None"
    from addSubscription_new [where db = db and username = username and env = first_call and days = days]
      none ok
    show ?thesis by simp
  next
    assume "\<exists>lapsed. db username = Some lapsed \<and> expiration_date lapsed < js_now first_call"
    then obtain lapsed where l: "db username = Some lapsed"
      and e: "expiration_date lapsed < js_now first_call" by blast
    from addSubscription_lapsed
      [where db = db and username = username and env = first_call and days = days and existing = lapsed]
      l e ok
    have "fst (addSubscription username days first_call db)" by simp
    moreover have "granted \<noteq> lapsed" using e clock act by auto
    ultimately show ?thesis using g l by simp
  qed
  then show "fst (addSubscription username days first_call db)" by simp
  from first show "?ledger \<noteq> db" by auto
  from addSubscription_active(2)
    [where db = ?ledger and username = username and existing = granted and env = second_call and days = days]
    g act sel2
  show "addSubscription username days second_call ?ledger = (True, ?ledger)" by simp
qed

lemma first_grant_2024_01_15:
  "snd (addSubscription ''alice'' 31 noon_2024_01_15 Map.empty) ''alice'' = Some active_row"
  by (simp add: addSubscription_new noon_2024_01_15_def upsert_row_def active_row_def msPerDay_def)

theorem grant_in_active_window_is_noop_witness:
  "addSubscription ''alice'' 31 noon_2024_01_25 [''alice'' \<mapsto> active_row]
     = (True, [''alice'' \<mapsto> active_row])
 \<and> fst (addSubscription ''alice'' 31 noon_2024_01_15 Map.empty)
 \<and> snd (addSubscription ''alice'' 31 noon_2024_01_15 Map.empty) \<noteq> Map.empty
 \<and> snd (addSubscription ''alice'' 31 noon_2024_01_15 Map.empty) ''alice'' = Some active_row
 \<and> addSubscription ''alice'' 31 noon_2024_01_25
      (snd (addSubscription ''alice'' 31 noon_2024_01_15 Map.empty))
     = (True, snd (addSubscription ''alice'' 31 noon_2024_01_15 Map.empty))"
proof -
  have h1: "[''alice'' \<mapsto> active_row] ''alice'' = Some active_row
      \<and> js_now noon_2024_01_25 \<le> expiration_date active_row
      \<and> \<not> select_throws noon_2024_01_25"
    by (simp add: noon_2024_01_25_def active_row_def)
  have h2: "(Map.empty ''alice'' = (None :: subscription_row option)
        \<or> (\<exists>lapsed. Map.empty ''alice'' = Some lapsed
              \<and> expiration_date lapsed < js_now noon_2024_01_15))
      \<and> \<not> select_throws noon_2024_01_15 \<and> \<not> upsert_throws noon_2024_01_15
      \<and> \<not> select_throws noon_2024_01_25
      \<and> length ''alice'' \<le> 16 \<and> js_now noon_2024_01_15 \<le> js_now noon_2024_01_25
      \<and> snd (addSubscription ''alice'' 31 noon_2024_01_15 Map.empty) ''alice'' = Some active_row
      \<and> js_now noon_2024_01_25 \<le> expiration_date active_row"
    using first_grant_2024_01_15
    by (simp add: noon_2024_01_15_def noon_2024_01_25_def active_row_def)
  from grant_in_active_window_is_noop
    [where db = "[''alice'' \<mapsto> active_row]" and username = "''alice''" and existing = active_row
       and env = noon_2024_01_25 and days = 31]
    h1
  have "addSubscription ''alice'' 31 noon_2024_01_25 [''alice'' \<mapsto> active_row]
     = (True, [''alice'' \<mapsto> active_row])"
    by blast
  moreover from grant_in_active_window_is_noop
    [where db = Map.empty and username = "''alice''" and first_call = noon_2024_01_15
       and second_call = noon_2024_01_25 and days = 31 and granted = active_row]
    h2
  have "fst (addSubscription ''alice'' 31 noon_2024_01_15 Map.empty)
      \<and> snd (addSubscription ''alice'' 31 noon_2024_01_15 Map.empty) \<noteq> Map.empty
      \<and> addSubscription ''alice'' 31 noon_2024_01_25
           (snd (addSubscription ''alice'' 31 noon_2024_01_15 Map.empty))
          = (True, snd (addSubscription ''alice'' 31 noon_2024_01_15 Map.empty))"
    by blast
  ultimately show ?thesis using first_grant_2024_01_15 by simp
qed

text \<open>A grant of a non-negative number of days never moves a stored expiration back.\<close>

lemma addSubscription_expiration_mono:
  assumes "0 \<le> days" and "db username = Some before"
  shows "\<exists>after. snd (addSubscription username days env db) username = Some after
           \<and> expiration_date before \<le> expiration_date after"
proof -
  from addSubscription_cases [of username days env db]
  show ?thesis
  proof
    assume "snd (addSubscription username days env db) = db"
    with assms(2) show ?thesis by simp
  next
    assume "\<exists>e. snd (addSubscription username days env db)
                 = db(username \<mapsto> upsert_row (js_now env) e env)
          \<and> (case db username of
                None \<Rightarrow> e = js_now env + days * msPerDay
              | Some existing \<Rightarrow> expiration_date existing < js_now env
                  \<and> e = setDate (setDate (js_now env) (getDate (js_now env) + days))
                          (getDate (js_now env) + days))"
    then obtain e where
      st: "snd (addSubscription username days env db)
             = db(username \<mapsto> upsert_row (js_now env) e env)"
      and lapsed: "expiration_date before < js_now env"
      and e: "e = setDate (setDate (js_now env) (getDate (js_now env) + days))
                    (getDate (js_now env) + days)"
      using assms(2) by auto
    have "js_now env \<le> js_now env + days * msPerDay"
      using assms(1) msPerDay_pos by simp
    also have "\<dots> \<le> e" unfolding e using assms(1) by (rule setDate_twice_ge)
    finally have "expiration_date before \<le> e" using lapsed by simp
    with st show ?thesis by (simp add: upsert_row_def)
  qed
qed

lemma grant_each_append:
  "grant_each username (gs @ hs) db = grant_each username hs (grant_each username gs db)"
  by (induction gs arbitrary: db) simp_all

lemma grant_each_expiration_mono:
  assumes "\<forall>g \<in> set gs. 0 \<le> fst g" and "db username = Some before"
  shows "\<exists>after. grant_each username gs db username = Some after
           \<and> expiration_date before \<le> expiration_date after"
  using assms
proof (induction gs arbitrary: db before)
  case Nil
  then show ?case by simp
next
  case (Cons g gs)
  from Cons.prems have "0 \<le> fst g" by simp
  from addSubscription_expiration_mono
    [where days = "fst g" and db = db and username = username and before = before and env = "snd g"]
    this Cons.prems(2)
  obtain mid where mid: "snd (addSubscription username (fst g) (snd g) db) username = Some mid"
    and le: "expiration_date before \<le> expiration_date mid" by blast
  from Cons.prems have "\<forall>g \<in> set gs. 0 \<le> fst g" by simp
  from Cons.IH [where db = "snd (addSubscription username (fst g) (snd g) db)" and before = mid]
    this mid
  obtain after
    where "grant_each username gs (snd (addSubscription username (fst g) (snd g) db)) username
             = Some after"
    and "expiration_date mid \<le> expiration_date after" by blast
  with le show ?case by auto
qed

text \<open>The guarded upsert keeps the later of the stored and the new expiration.\<close>

lemma guarded_step:
  assumes "\<not> upsert_throws env" and "length sender \<le> 16"
  shows "map_option expiration_date (processSubscriptionTransfer_guarded sender ts env db sender) =
         Some (case db sender of None \<Rightarrow> ts + 31 * msPerDay
               | Some existing \<Rightarrow> max (expiration_date existing) (ts + 31 * msPerDay))"
  using assms
  by (simp add: processSubscriptionTransfer_guarded_def Let_def upsert_row_def split: option.splits)

lemma transfer_each_existing:
  assumes "\<forall>t \<in> set ts. \<not> upsert_throws (snd t)" and "length sender \<le> 16"
    and "db sender = Some before"
  shows "map_option expiration_date (transfer_each sender ts db sender) =
         Some (Max (insert (expiration_date before) ((\<lambda>t. fst t + 31 * msPerDay) ` set ts)))"
  using assms
proof (induction ts arbitrary: db before)
  case Nil
  then show ?case by simp
next
  case (Cons t ts)
  let ?next = "processSubscriptionTransfer_guarded sender (fst t) (snd t) db"
  from Cons.prems have ok: "\<not> upsert_throws (snd t)" by simp
  from guarded_step [OF ok Cons.prems(2), of "fst t" db] Cons.prems(3)
  obtain mid where mid: "?next sender = Some mid"
    and emid: "expiration_date mid = max (expiration_date before) (fst t + 31 * msPerDay)"
    by auto
  from Cons.prems have "\<forall>t \<in> set ts. \<not> upsert_throws (snd t)" by simp
  from Cons.IH [where db = ?next and before = mid] this Cons.prems(2) mid
  have "map_option expiration_date (transfer_each sender ts ?next sender) =
        Some (Max (insert (expiration_date mid) ((\<lambda>t. fst t + 31 * msPerDay) ` set ts)))"
    by simp
  moreover have "Max (insert (expiration_date mid) ((\<lambda>t. fst t + 31 * msPerDay) ` set ts)) =
        Max (insert (expiration_date before) ((\<lambda>t. fst t + 31 * msPerDay) ` set (t # ts)))"
  proof (cases "ts = []")
    case True
    then show ?thesis by (simp add: emid max.commute)
  next
    case False
    then have "(\<lambda>t. fst t + 31 * msPerDay) ` set ts \<noteq> {}" by simp
    moreover have "finite ((\<lambda>t. fst t + 31 * msPerDay) ` set ts)" by simp
    ultimately show ?thesis
      by (simp add: emid Max_insert max.assoc)
  qed
  ultimately show ?case by simp
qed

lemma transfer_each_new:
  assumes "\<forall>t \<in> set ts. \<not> upsert_throws (snd t)" and "length sender \<le> 16"
    and "db sender = None" and "ts \<noteq> []"
  shows "map_option expiration_date (transfer_each sender ts db sender) =
         Some (Max ((\<lambda>t. fst t + 31 * msPerDay) ` set ts))"
proof -
  from assms(4) obtain t rest where ts: "ts = t # rest" by (cases ts) auto
  let ?next = "processSubscriptionTransfer_guarded sender (fst t) (snd t) db"
  from assms(1) ts have ok: "\<not> upsert_throws (snd t)" by simp
  from guarded_step [OF ok assms(2), of "fst t" db] assms(3)
  obtain mid where mid: "?next sender = Some mid"
    and emid: "expiration_date mid = fst t + 31 * msPerDay"
    by auto
  from assms(1) ts have "\<forall>t \<in> set rest. \<not> upsert_throws (snd t)" by simp
  from transfer_each_existing [where db = ?next and before = mid and ts = rest and sender = sender]
    this assms(2) mid
  show ?thesis by (simp add: ts emid)
qed

text \<open>
  C2 (monotonic expiration), as amended. Over every run of grants with non-negative day
  counts to one username through \<open>addSubscription\<close>, the stored \<open>expiration_date\<close> never
  decreases: after any further grants it is at least what it was after the grants before
  them. It is not in general the maximum of grant time plus days, since a grant that
  arrives while the window is active stores nothing. Under the earlier
  \<open>processSubscriptionTransfer\<close>, whose upsert is guarded by the comparison of the
  expirations, the stored \<open>expiration_date\<close> after a run of transfers whose upserts do not
  throw is the maximum of the expiration stored before, if there was one, and of every
  transfer's timestamp plus 31 days.
\<close>

theorem expiration_never_decreases:
  "((\<forall>g \<in> set (earlier @ later). 0 \<le> fst g)
      \<and> grant_each username earlier db username = Some before
      \<longrightarrow> (\<exists>after. grant_each username (earlier @ later) db username = Some after
             \<and> expiration_date before \<le> expiration_date after))
 \<and> ((\<forall>t \<in> set transfers. \<not> upsert_throws (snd t)) \<and> length sender \<le> 16
      \<and> ledger sender = Some stored
      \<longrightarrow> map_option expiration_date (transfer_each sender transfers ledger sender) =
            Some (Max (insert (expiration_date stored)
                         ((\<lambda>t. fst t + 31 * msPerDay) ` set transfers))))
 \<and> ((\<forall>t \<in> set transfers. \<not> upsert_throws (snd t)) \<and> length sender \<le> 16
      \<and> ledger sender = None \<and> transfers \<noteq> []
      \<longrightarrow> map_option expiration_date (transfer_each sender transfers ledger sender) =
            Some (Max ((\<lambda>t. fst t + 31 * msPerDay) ` set transfers)))"
proof (intro conjI impI)
  assume a: "(\<forall>g \<in> set (earlier @ later). 0 \<le> fst g)
      \<and> grant_each username earlier db username = Some before"
  then have "\<forall>g \<in> set later. 0 \<le> fst g" by simp
  from grant_each_expiration_mono
    [where gs = later and db = "grant_each username earlier db" and username = username
       and before = before]
    this a
  show "\<exists>after. grant_each username (earlier @ later) db username = Some after
             \<and> expiration_date before \<le> expiration_date after"
    by (simp add: grant_each_append)
next
  assume a: "(\<forall>t \<in> set transfers. \<not> upsert_throws (snd t)) \<and> length sender \<le> 16
      \<and> ledger sender = Some stored"
  from transfer_each_existing
    [where ts = transfers and sender = sender and db = ledger and before = stored] a
  show "map_option expiration_date (transfer_each sender transfers ledger sender) =
            Some (Max (insert (expiration_date stored)
                         ((\<lambda>t. fst t + 31 * msPerDay) ` set transfers)))"
    by simp
next
  assume a: "(\<forall>t \<in> set transfers. \<not> upsert_throws (snd t)) \<and> length sender \<le> 16
      \<and> ledger sender = None \<and> transfers \<noteq> []"
  from transfer_each_new [where ts = transfers and sender = sender and db = ledger] a
  show "map_option expiration_date (transfer_each sender transfers ledger sender) =
            Some (Max ((\<lambda>t. fst t + 31 * msPerDay) ` set transfers))"
    by simp
qed

text \<open>
  The amended statement at two payments of alice, at noon on 15 and on 25 January 2024:
  through \<open>addSubscription\<close> the window stored by the first grant stands after the second;
  through the guarded upsert the later of the two expirations is stored, with or without
  the lapsed row before.
\<close>

theorem expiration_never_decreases_witness:
  "(\<exists>after. grant_each ''alice'' ([(31, noon_2024_01_15)] @ [(31, noon_2024_01_25)]) Map.empty ''alice''
              = Some after
         \<and> expiration_date active_row \<le> expiration_date after)
 \<and> map_option expiration_date
      (transfer_each ''alice'' [(1705320000000, noon_2024_01_15), (1706184000000, noon_2024_01_25)]
         [''alice'' \<mapsto> lapsed_row] ''alice'') = Some 1708862400000
 \<and> map_option expiration_date
      (transfer_each ''alice'' [(1705320000000, noon_2024_01_15), (1706184000000, noon_2024_01_25)]
         Map.empty ''alice'') = Some 1708862400000"
proof -
  have h1: "(\<forall>g \<in> set ([(31 :: int, noon_2024_01_15)] @ [(31, noon_2024_01_25)]). 0 \<le> fst g)
      \<and> grant_each ''alice'' [(31, noon_2024_01_15)] Map.empty ''alice'' = Some active_row"
    using first_grant_2024_01_15 by simp
  have h2: "(\<forall>t \<in> set [(1705320000000, noon_2024_01_15), (1706184000000 :: int, noon_2024_01_25)].
               \<not> upsert_throws (snd t))
      \<and> length ''alice'' \<le> 16"
    by (simp add: noon_2024_01_15_def noon_2024_01_25_def)
  from expiration_never_decreases
    [where earlier = "[(31, noon_2024_01_15)]" and later = "[(31, noon_2024_01_25)]"
       and username = "''alice''" and db = Map.empty and before = active_row]
    h1
  have "\<exists>after. grant_each ''alice'' ([(31, noon_2024_01_15)] @ [(31, noon_2024_01_25)]) Map.empty ''alice''
              = Some after
         \<and> expiration_date active_row \<le> expiration_date after"
    by blast
  moreover from expiration_never_decreases
    [where transfers = "[(1705320000000, noon_2024_01_15), (1706184000000, noon_2024_01_25)]"
       and sender = "''alice''" and ledger = "[''alice'' \<mapsto> lapsed_row]" and stored = lapsed_row]
    h2
  have "map_option expiration_date
      (transfer_each ''alice'' [(1705320000000, noon_2024_01_15), (1706184000000, noon_2024_01_25)]
         [''alice'' \<mapsto> lapsed_row] ''alice'') = Some 1708862400000"
    by (simp add: lapsed_row_def msPerDay_def)
  moreover from expiration_never_decreases
    [where transfers = "[(1705320000000, noon_2024_01_15), (1706184000000, noon_2024_01_25)]"
       and sender = "''alice''" and ledger = Map.empty]
    h2
  have "map_option expiration_date
      (transfer_each ''alice'' [(1705320000000, noon_2024_01_15), (1706184000000, noon_2024_01_25)]
         Map.empty ''alice'') = Some 1708862400000"
    by (simp add: msPerDay_def)
  ultimately show ?thesis by blast
qed

text \<open>
  C2 as stated fails: alice pays at noon on 15 January 2024 and again at noon on 25
  January 2024, 31 days each time, with no row before. The second grant finds the window
  active and stores nothing, so the stored expiration is the first grant's time plus 31
  days, which is less than the maximum of grant time plus days over the two grants.
\<close>

theorem expiration_is_not_the_maximum_counterexample:
  "map_option expiration_date
     (grant_each ''alice'' [(31, noon_2024_01_15), (31, noon_2024_01_25)] Map.empty ''alice'')
     = Some (js_now noon_2024_01_15 + 31 * msPerDay)
 \<and> js_now noon_2024_01_15 + 31 * msPerDay
     < max (js_now noon_2024_01_15 + 31 * msPerDay) (js_now noon_2024_01_25 + 31 * msPerDay)"
proof -
  let ?first = "snd (addSubscription ''alice'' 31 noon_2024_01_15 Map.empty)"
  have "js_now noon_2024_01_25 \<le> expiration_date active_row"
    by (simp add: noon_2024_01_25_def active_row_def)
  with first_grant_2024_01_15
  have "snd (addSubscription ''alice'' 31 noon_2024_01_25 ?first) = ?first"
    by (rule addSubscription_active(1))
  then have "grant_each ''alice'' [(31, noon_2024_01_15), (31, noon_2024_01_25)] Map.empty ''alice''
      = Some active_row"
    using first_grant_2024_01_15 by simp
  then show ?thesis
    by (simp add: active_row_def noon_2024_01_15_def noon_2024_01_25_def msPerDay_def)
qed

text \<open>Day 19737 is 15 January 2024 and day 19768 is 15 February 2024.\<close>

lemma month_start_2024_01_15: "month_start 19737 = 19723"
  by code_simp

lemma month_start_2024_02_15: "month_start 19768 = 19754"
  by code_simp

text \<open>
  C3 (grant on a lapsed window), at an input where the code departs from it. Without a
  row the code stores \<open>subscription_date = now\<close>, \<open>expiration_date = now + days\<close> and
  \<open>active = true\<close>, as the claim says. With a lapsed row it calls \<open>setDate\<close> a second
  time on the date it has already moved: at noon on 15 January 2024, for 31 days, on a
  row that expired on 10 January 2024, it returns \<open>true\<close> and stores noon on 17 March 2024
  as the expiration, while \<open>now + 31\<close> days is noon on 15 February 2024.
\<close>

theorem lapsed_grant_moves_expiration_twice:
  "expiration_date lapsed_row < js_now noon_2024_01_15
 \<and> fst (addSubscription ''alice'' 31 noon_2024_01_15 [''alice'' \<mapsto> lapsed_row])
 \<and> snd (addSubscription ''alice'' 31 noon_2024_01_15 [''alice'' \<mapsto> lapsed_row]) ''alice''
     = Some \<lparr> subscription_date = 1705320000000, expiration_date = 1710676800000,
              date_updated = 1705320000000, active_subscription = True \<rparr>
 \<and> js_now noon_2024_01_15 + 31 * msPerDay = 1707998400000
 \<and> snd (addSubscription ''alice'' 31 noon_2024_01_15 Map.empty) ''alice''
     = Some \<lparr> subscription_date = 1705320000000, expiration_date = 1707998400000,
              date_updated = 1705320000000, active_subscription = True \<rparr>"
proof -
  have lapsed: "expiration_date lapsed_row < js_now noon_2024_01_15"
    by (simp add: lapsed_row_def noon_2024_01_15_def)
  have day: "Day 1705320000000 = 19737"
    by (simp add: Day_def msPerDay_def)
  have "addSubscription ''alice'' 31 noon_2024_01_15 [''alice'' \<mapsto> lapsed_row] =
        (True, [''alice'' \<mapsto> lapsed_row](''alice'' \<mapsto> upsert_row (js_now noon_2024_01_15)
            (js_now noon_2024_01_15 + 31 * msPerDay
               + (month_start (Day (js_now noon_2024_01_15) + 31)
                    - month_start (Day (js_now noon_2024_01_15))) * msPerDay)
            noon_2024_01_15))"
    using lapsed
    by (intro addSubscription_lapsed [where existing = lapsed_row])
       (simp_all add: noon_2024_01_15_def)
  then have "fst (addSubscription ''alice'' 31 noon_2024_01_15 [''alice'' \<mapsto> lapsed_row])
      \<and> snd (addSubscription ''alice'' 31 noon_2024_01_15 [''alice'' \<mapsto> lapsed_row]) ''alice''
          = Some \<lparr> subscription_date = 1705320000000, expiration_date = 1710676800000,
                   date_updated = 1705320000000, active_subscription = True \<rparr>"
    by (simp add: day month_start_2024_01_15 month_start_2024_02_15 upsert_row_def
        noon_2024_01_15_def msPerDay_def)
  moreover have "js_now noon_2024_01_15 + 31 * msPerDay = 1707998400000"
    by (simp add: noon_2024_01_15_def msPerDay_def)
  ultimately show ?thesis
    using lapsed first_grant_2024_01_15 by (simp add: active_row_def)
qed

section \<open>The transfer classifier\<close>

text \<open>
  C4 (case-insensitive memo), at an input where the code departs from it. A transfer of
  5.000 HBD to the payment account with the memo \<open>SUBSCRIBE:myaccount\<close> passes the
  comparison of \<open>processOperation\<close>, which lowers the case of the whole memo, and is
  handed to \<open>processSubscriptionTransfer\<close>; there the regular expression wants the prefix
  \<open>subscribe:\<close> in lower case, the match is \<open>null\<close> and the function returns \<open>false\<close>:
  no row is stored for the sender and no error is raised. The same transfer with the
  memo \<open>subscribe:myaccount\<close> stores a window of 31 days.
\<close>

theorem upper_case_prefix_is_not_granted:
  "toLowerCase ''SUBSCRIBE:myaccount'' = ''subscribe:'' @ toLowerCase (SUBSCRIPTION_ACCOUNT example_config)
 \<and> fst (processOperation (retry new_HiveMonitor) example_config upper_memo_operation
           noon_2024_01_15 Map.empty) = Inr (Some ())
 \<and> snd (processOperation (retry new_HiveMonitor) example_config upper_memo_operation
           noon_2024_01_15 Map.empty) ''alice'' = None
 \<and> snd (processOperation (retry new_HiveMonitor) example_config lower_memo_operation
           noon_2024_01_15 Map.empty) ''alice'' = Some active_row"
  by code_simp

section \<open>The circuit breaker\<close>

lemma failure_fields [simp]:
  "failureThreshold (failure t cb) = failureThreshold cb"
  "resetTimeout (failure t cb) = resetTimeout cb"
  "name (failure t cb) = name cb"
  "failureCount (failure t cb) = failureCount cb + 1"
  "lastFailureTime (failure t cb) = Some t"
  "isOpen (failure t cb) = (isOpen cb \<or> failureThreshold cb \<le> failureCount cb + 1)"
  by (simp_all add: failure_def Let_def)






lemma tripped_breaker_state:
  "tripped_breaker =
     \<lparr> failureThreshold = 3, resetTimeout = 60000, failureCount = 3, isOpen = True,
       lastFailureTime = Some 0, name = ''hive-connection'' \<rparr>"
  by (simp add: tripped_breaker_def hive_breaker_def new_CircuitBreaker_def or_default_def
      always_down_def clock_runtime_def CircuitBreaker_execute_def attempt_call_def failure_def)









text \<open>
  C10 (what a success leaves in place), as amended. \<open>success()\<close> sets \<open>failureCount\<close> to 0
  and \<open>isOpen\<close> to false and leaves \<open>lastFailureTime\<close> as it is. So after a successful
  \<open>execute\<close> call on a closed breaker \<open>getState()\<close> reports \<open>isOpen = false\<close>,
  \<open>failureCount = 0\<close> and the \<open>lastFailureTime\<close> of before; in particular a breaker that
  failed below its threshold and then succeeded reports the time of that failure. A
  successful \<open>execute\<close> call on an open breaker whose cooldown has passed goes through
  \<open>reset()\<close> first, and \<open>getState()\<close> then reports \<open>lastFailureTime = null\<close>.
\<close>

theorem success_keeps_lastFailureTime:
  "lastFailureTime (success cb) = lastFailureTime cb
 \<and> failureCount (success cb) = 0 \<and> \<not> isOpen (success cb)
 \<and> (\<not> isOpen cb \<and> fst (operation w) = Inr v
      \<longrightarrow> getState (fst (snd (CircuitBreaker_execute rt cb operation w))) =
            \<lparr> state_isOpen = False, state_failureCount = 0,
              state_lastFailureTime = lastFailureTime cb \<rparr>)
 \<and> (\<not> isOpen cb \<and> failureCount cb + 1 < failureThreshold cb
      \<and> fst (failing w) = Inl e \<and> fst (operation (snd (failing w))) = Inr v
      \<longrightarrow> getState (fst (execute_each rt cb [failing, operation] w)) =
            \<lparr> state_isOpen = False, state_failureCount = 0,
              state_lastFailureTime = Some (now rt (snd (failing w))) \<rparr>)
 \<and> (isOpen cb \<and> lastFailureTime cb = Some t \<and> resetTimeout cb \<le> now rt w - t
      \<and> fst (operation w) = Inr v
      \<longrightarrow> getState (fst (snd (CircuitBreaker_execute rt cb operation w))) =
            \<lparr> state_isOpen = False, state_failureCount = 0, state_lastFailureTime = None \<rparr>)"
  by (simp add: success_def getState_def CircuitBreaker_execute_def attempt_call_def
      reset_def failure_def Let_def)

text \<open>
  The supervisor's breaker: one refused connection at time 0 and a success after it
  leave \<open>lastFailureTime = 0\<close>; three refused connections and a success at 60000 ms
  leave \<open>null\<close>.
\<close>

theorem success_keeps_lastFailureTime_witness:
  "getState (fst (execute_each clock_runtime hive_breaker [always_down, responds] 0))
     = \<lparr> state_isOpen = False, state_failureCount = 0, state_lastFailureTime = Some 0 \<rparr>
 \<and> getState (fst (snd (CircuitBreaker_execute clock_runtime tripped_breaker responds 60000)))
     = \<lparr> state_isOpen = False, state_failureCount = 0, state_lastFailureTime = None \<rparr>
 \<and> getState (fst (snd (CircuitBreaker_execute clock_runtime
       (tripped_breaker\<lparr>isOpen := False\<rparr>) responds 60000)))
     = \<lparr> state_isOpen = False, state_failureCount = 0, state_lastFailureTime = Some 0 \<rparr>"
proof -
  have h1: "\<not> isOpen hive_breaker \<and> failureCount hive_breaker + 1 < failureThreshold hive_breaker
      \<and> fst (always_down 0) = Inl (Error ''ECONNREFUSED'')
      \<and> fst (responds (snd (always_down 0))) = Inr ()"
    by (simp add: hive_breaker_def new_CircuitBreaker_def or_default_def always_down_def
        responds_def)
  have h2: "isOpen tripped_breaker \<and> lastFailureTime tripped_breaker = Some 0
      \<and> resetTimeout tripped_breaker \<le> now clock_runtime 60000 - 0
      \<and> fst (responds 60000) = Inr ()"
    by (simp add: tripped_breaker_state clock_runtime_def responds_def)
  have h3: "\<not> isOpen (tripped_breaker\<lparr>isOpen := False\<rparr>) \<and> fst (responds 60000) = Inr ()"
    by (simp add: responds_def)
  from success_keeps_lastFailureTime
    [where cb = hive_breaker and operation = responds and w = 0 and v = "()"
       and rt = clock_runtime and failing = always_down and e = "Error ''ECONNREFUSED''"]
    h1
  have "getState (fst (execute_each clock_runtime hive_breaker [always_down, responds] 0))
     = \<lparr> state_isOpen = False, state_failureCount = 0,
         state_lastFailureTime = Some (now clock_runtime (snd (always_down 0))) \<rparr>"
    by blast
  moreover from success_keeps_lastFailureTime
    [where cb = tripped_breaker and operation = responds and w = 60000 and v = "()"
       and rt = clock_runtime and t = 0]
    h2
  have "getState (fst (snd (CircuitBreaker_execute clock_runtime tripped_breaker responds 60000)))
     = \<lparr> state_isOpen = False, state_failureCount = 0, state_lastFailureTime = None \<rparr>"
    by blast
  moreover from success_keeps_lastFailureTime
    [where cb = "tripped_breaker\<lparr>isOpen := False\<rparr>" and operation = responds
       and w = 60000 and v = "()" and rt = clock_runtime]
    h3
  have "getState (fst (snd (CircuitBreaker_execute clock_runtime
       (tripped_breaker\<lparr>isOpen := False\<rparr>) responds 60000)))
     = \<lparr> state_isOpen = False, state_failureCount = 0,
         state_lastFailureTime = lastFailureTime (tripped_breaker\<lparr>isOpen := False\<rparr>) \<rparr>"
    by blast
  ultimately show ?thesis
    by (simp add: clock_runtime_def always_down_def tripped_breaker_state)
qed

text \<open>
  C10 as stated fails: the supervisor's breaker failed three times at time 0 and then
  succeeded at 60000 ms, and \<open>getState()\<close> reports \<open>lastFailureTime = null\<close> together with
  \<open>isOpen = false\<close> and \<open>failureCount = 0\<close>.
\<close>

theorem success_after_cooldown_clears_lastFailureTime_counterexample:
  "fst (CircuitBreaker_execute clock_runtime tripped_breaker responds 60000) = Inr ()
 \<and> state_lastFailureTime
      (getState (fst (snd (CircuitBreaker_execute clock_runtime tripped_breaker responds 60000))))
     = None
 \<and> lastFailureTime tripped_breaker = Some 0"
  by (simp add: tripped_breaker_state responds_def clock_runtime_def getState_def
      CircuitBreaker_execute_def attempt_call_def success_def reset_def)

section \<open>The retry executor\<close>

text \<open>Failed attempts that are not the last one lead to the next attempt.\<close>

lemma retry_loop_skip_failures:
  assumes "\<forall>j<k. isl (fst (operation (attempt_world rt r operation w j)))"
    and "int k < maxAttempts r"
  shows "retry_loop rt r operation 1 w =
         retry_loop rt r operation (1 + int k) (attempt_world rt r operation w k)"
  using assms
proof (induction k)
  case 0
  then show ?case by simp
next
  case (Suc k)
  let ?w = "attempt_world rt r operation w k"
  from Suc.prems have fails: "isl (fst (operation ?w))" by simp
  then obtain e where e: "fst (operation ?w) = Inl e"
    by (cases "fst (operation ?w)") auto
  from Suc.prems have notlast: "1 + int k \<le> maxAttempts r" "1 + int k \<noteq> maxAttempts r"
    by simp_all
  have "retry_loop rt r operation 1 w = retry_loop rt r operation (1 + int k) ?w"
    using Suc by simp
  also have "\<dots> = retry_loop rt r operation (1 + int k + 1)
      (sleep rt (delay r * backoffFactor r ^ nat (1 + int k - 1)) (snd (operation ?w)))"
    using e notlast by (subst retry_loop.simps) simp
  also have "\<dots> = retry_loop rt r operation (1 + int (Suc k))
      (attempt_world rt r operation w (Suc k))"
    by (simp add: add.commute)
  finally show ?case .
qed

lemma retry_success_at:
  assumes "\<forall>j<k. isl (fst (operation (attempt_world rt r operation w j)))"
    and "int k < maxAttempts r"
    and "fst (operation (attempt_world rt r operation w k)) = Inr v"
  shows "RetryOperation_execute rt r operation w =
         (Inr (Some v), snd (operation (attempt_world rt r operation w k)))"
proof -
  have "RetryOperation_execute rt r operation w =
        retry_loop rt r operation (1 + int k) (attempt_world rt r operation w k)"
    unfolding RetryOperation_execute_def using assms(1,2) by (rule retry_loop_skip_failures)
  also have "\<dots> = (Inr (Some v), snd (operation (attempt_world rt r operation w k)))"
    using assms(2,3) by (subst retry_loop.simps) simp
  finally show ?thesis .
qed

lemma retry_exhausted:
  assumes "\<forall>j<nat (maxAttempts r). isl (fst (operation (attempt_world rt r operation w j)))"
    and "1 \<le> maxAttempts r"
  shows "RetryOperation_execute rt r operation w =
         (Inl (projl (fst (operation (attempt_world rt r operation w (nat (maxAttempts r) - 1))))),
          snd (operation (attempt_world rt r operation w (nat (maxAttempts r) - 1))))"
proof -
  let ?k = "nat (maxAttempts r) - 1"
  let ?w = "attempt_world rt r operation w ?k"
  have k: "1 + int ?k = maxAttempts r" using assms(2) by simp
  have "\<forall>j<?k. isl (fst (operation (attempt_world rt r operation w j)))"
    using assms(1) by simp
  moreover have "int ?k < maxAttempts r" using assms(2) by simp
  ultimately have "RetryOperation_execute rt r operation w
      = retry_loop rt r operation (1 + int ?k) ?w"
    unfolding RetryOperation_execute_def by (rule retry_loop_skip_failures)
  moreover have "isl (fst (operation ?w))" using assms by simp
  then obtain e where e: "fst (operation ?w) = Inl e" by (cases "fst (operation ?w)") auto
  ultimately show ?thesis
    using k by (subst (asm) retry_loop.simps) simp
qed

lemma attempt_world_fold:
  "snd (operation (attempt_world rt r operation w k)) =
   fold (\<lambda>d w'. snd (operation (sleep rt d w')))
     (map (\<lambda>i. delay r * backoffFactor r ^ (i - 1)) [1..<Suc k]) (snd (operation w))"
  by (induction k) simp_all

text \<open>
  C7 (attempts and backoff). When the operation fails at every call and \<open>maxAttempts\<close>
  is at least 1, \<open>execute\<close> fails, and the world it leaves is the one reached by calling
  the operation, then, for \<open>k\<close> from 1 to \<open>maxAttempts - 1\<close> in turn, suspending for
  \<open>delay * backoffFactor ^ (k - 1)\<close> and calling the operation again: \<open>maxAttempts\<close>
  calls, a suspension of that length between call \<open>k\<close> and call \<open>k + 1\<close>, and nothing
  after the last call.
\<close>

theorem retry_attempts_and_backoff:
  "(\<forall>w. isl (fst (operation w))) \<and> 1 \<le> maxAttempts r
   \<longrightarrow> snd (RetryOperation_execute rt r operation w) =
         fold (\<lambda>d w'. snd (operation (sleep rt d w')))
           (map (\<lambda>k. delay r * backoffFactor r ^ (k - 1)) [1..<nat (maxAttempts r)])
           (snd (operation w))
       \<and> isl (fst (RetryOperation_execute rt r operation w))"
proof
  assume a: "(\<forall>w. isl (fst (operation w))) \<and> 1 \<le> maxAttempts r"
  then have "\<forall>j<nat (maxAttempts r). isl (fst (operation (attempt_world rt r operation w j)))"
    by simp
  moreover from a have one: "1 \<le> maxAttempts r" by simp
  ultimately have ex: "RetryOperation_execute rt r operation w =
         (Inl (projl (fst (operation (attempt_world rt r operation w (nat (maxAttempts r) - 1))))),
          snd (operation (attempt_world rt r operation w (nat (maxAttempts r) - 1))))"
    by (rule retry_exhausted)
  have "Suc (nat (maxAttempts r) - 1) = nat (maxAttempts r)" using one by simp
  with attempt_world_fold [of operation rt r w "nat (maxAttempts r) - 1"] ex
  show "snd (RetryOperation_execute rt r operation w) =
         fold (\<lambda>d w'. snd (operation (sleep rt d w')))
           (map (\<lambda>k. delay r * backoffFactor r ^ (k - 1)) [1..<nat (maxAttempts r)])
           (snd (operation w))
       \<and> isl (fst (RetryOperation_execute rt r operation w))"
    by simp
qed

text \<open>
  With the settings of db.js (3 attempts, 1000 ms, factor 2) the operation is called 3
  times and the suspensions are 1000 and 2000 ms; with the supervisor's settings (5
  attempts, 5000 ms, factor 1.5) it is called 5 times and the suspensions are 5000, 7500,
  11250 and 16875 ms.
\<close>

theorem retry_attempts_and_backoff_witness:
  "snd (RetryOperation_execute recording_runtime database_retry always_fails (0, []))
     = (3, [1000, 2000])
 \<and> snd (RetryOperation_execute recording_runtime (retry new_HiveMonitor) always_fails (0, []))
     = (5, [5000, 7500, 11250, 16875])"
proof -
  have h1: "(\<forall>w. isl (fst (always_fails w))) \<and> 1 \<le> maxAttempts database_retry"
    by (simp add: always_fails_def database_retry_def new_RetryOperation_def or_default_def)
  have h2: "(\<forall>w. isl (fst (always_fails w))) \<and> 1 \<le> maxAttempts (retry new_HiveMonitor)"
    by (simp add: always_fails_def new_HiveMonitor_def new_RetryOperation_def or_default_def)
  from retry_attempts_and_backoff
    [where operation = always_fails and r = database_retry and rt = recording_runtime
       and w = "(0, [])"]
    h1
  have "snd (RetryOperation_execute recording_runtime database_retry always_fails (0, [])) =
         fold (\<lambda>d w'. snd (always_fails (sleep recording_runtime d w')))
           (map (\<lambda>k. delay database_retry * backoffFactor database_retry ^ (k - 1))
              [1..<nat (maxAttempts database_retry)])
           (snd (always_fails (0, [])))"
    by blast
  moreover have "fold (\<lambda>d w'. snd (always_fails (sleep recording_runtime d w')))
           (map (\<lambda>k. delay database_retry * backoffFactor database_retry ^ (k - 1))
              [1..<nat (maxAttempts database_retry)])
           (snd (always_fails (0, []))) = (3, [1000, 2000])"
    by code_simp
  moreover from retry_attempts_and_backoff
    [where operation = always_fails and r = "retry new_HiveMonitor" and rt = recording_runtime
       and w = "(0, [])"]
    h2
  have "snd (RetryOperation_execute recording_runtime (retry new_HiveMonitor) always_fails (0, [])) =
         fold (\<lambda>d w'. snd (always_fails (sleep recording_runtime d w')))
           (map (\<lambda>k. delay (retry new_HiveMonitor) * backoffFactor (retry new_HiveMonitor) ^ (k - 1))
              [1..<nat (maxAttempts (retry new_HiveMonitor))])
           (snd (always_fails (0, [])))"
    by blast
  moreover have "fold (\<lambda>d w'. snd (always_fails (sleep recording_runtime d w')))
           (map (\<lambda>k. delay (retry new_HiveMonitor) * backoffFactor (retry new_HiveMonitor) ^ (k - 1))
              [1..<nat (maxAttempts (retry new_HiveMonitor))])
           (snd (always_fails (0, []))) = (5, [5000, 7500, 11250, 16875])"
    by code_simp
  ultimately show ?thesis by simp
qed

text \<open>
  C8 (result and exhaustion), as amended. \<open>execute\<close> returns the value of the first
  attempt that succeeds: when the attempts before attempt \<open>k + 1\<close> fail and attempt
  \<open>k + 1\<close>, one of the first \<open>maxAttempts\<close>, returns \<open>v\<close>, the result is \<open>v\<close> and no
  further attempt is made. When all \<open>maxAttempts\<close> attempts fail, \<open>execute\<close> fails with
  the very error the last attempt threw, rethrown as it is (\<open>throw error\<close>): no error
  of a kind of its own wraps or carries it, and with \<open>maxAttempts = 1\<close> a failing
  \<open>execute\<close> gives exactly what the failed call gave.
\<close>

theorem retry_result_and_exhaustion:
  "(int k < maxAttempts r
      \<and> (\<forall>j<k. isl (fst (operation (attempt_world rt r operation w j))))
      \<and> fst (operation (attempt_world rt r operation w k)) = Inr v
    \<longrightarrow> RetryOperation_execute rt r operation w =
          (Inr (Some v), snd (operation (attempt_world rt r operation w k))))
 \<and> (1 \<le> maxAttempts r
      \<and> (\<forall>j<nat (maxAttempts r).
            fst (operation (attempt_world rt r operation w j)) = Inl (errors j))
    \<longrightarrow> fst (RetryOperation_execute rt r operation w)
          = Inl (errors (nat (maxAttempts r) - 1)))
 \<and> (maxAttempts r = 1 \<and> fst (operation w) = Inl e
    \<longrightarrow> RetryOperation_execute rt r operation w = (Inl e, snd (operation w)))"
proof (intro conjI impI)
  assume "int k < maxAttempts r
      \<and> (\<forall>j<k. isl (fst (operation (attempt_world rt r operation w j))))
      \<and> fst (operation (attempt_world rt r operation w k)) = Inr v"
  then show "RetryOperation_execute rt r operation w =
          (Inr (Some v), snd (operation (attempt_world rt r operation w k)))"
    by (simp add: retry_success_at)
next
  assume a: "1 \<le> maxAttempts r
      \<and> (\<forall>j<nat (maxAttempts r).
            fst (operation (attempt_world rt r operation w j)) = Inl (errors j))"
  then have "\<forall>j<nat (maxAttempts r). isl (fst (operation (attempt_world rt r operation w j)))"
    by simp
  moreover from a have one: "1 \<le> maxAttempts r" by simp
  ultimately have "RetryOperation_execute rt r operation w =
         (Inl (projl (fst (operation (attempt_world rt r operation w (nat (maxAttempts r) - 1))))),
          snd (operation (attempt_world rt r operation w (nat (maxAttempts r) - 1))))"
    by (rule retry_exhausted)
  moreover have "fst (operation (attempt_world rt r operation w (nat (maxAttempts r) - 1)))
      = Inl (errors (nat (maxAttempts r) - 1))"
    using a by simp
  ultimately show "fst (RetryOperation_execute rt r operation w)
          = Inl (errors (nat (maxAttempts r) - 1))"
    by simp
next
  assume "maxAttempts r = 1 \<and> fst (operation w) = Inl e"
  then show "RetryOperation_execute rt r operation w = (Inl e, snd (operation w))"
    unfolding RetryOperation_execute_def by (subst retry_loop.simps) simp
qed

lemma always_fails_calls:
  "fst (attempt_world recording_runtime r always_fails w j) = fst w + j"
  by (induction j) (simp_all add: recording_runtime_def always_fails_def)

lemma fails_twice_calls:
  "fst (attempt_world recording_runtime r fails_twice w j) = fst w + j"
  by (induction j) (simp_all add: recording_runtime_def fails_twice_def)

text \<open>
  With the settings of db.js: an operation that fails twice and then returns 2 gives 2
  after three calls and suspensions of 1000 and 2000 ms; an operation that fails with
  the messages \<open>!\<close>, \<open>!!\<close>, \<open>!!!\<close> in turn makes \<open>execute\<close> fail with \<open>!!!\<close>; with a
  single attempt \<open>execute\<close> fails with \<open>!\<close> after one call and no suspension.
\<close>

theorem retry_result_and_exhaustion_witness:
  "RetryOperation_execute recording_runtime database_retry fails_twice (0, [])
     = (Inr (Some 2), (3, [1000, 2000]))
 \<and> fst (RetryOperation_execute recording_runtime database_retry always_fails (0, []))
     = Inl (Error ''!!!'')
 \<and> RetryOperation_execute recording_runtime single_attempt always_fails (0, [])
     = (Inl (Error ''!''), (1, []))"
proof -
  have h3: "maxAttempts single_attempt = 1 \<and> fst (always_fails (0, [])) = Inl (Error ''!'')"
    by (simp add: single_attempt_def new_RetryOperation_def or_default_def always_fails_def)
  from retry_result_and_exhaustion
    [where r = single_attempt and operation = always_fails and rt = recording_runtime
       and w = "(0, [])" and e = "Error ''!''"]
    h3
  have once: "RetryOperation_execute recording_runtime single_attempt always_fails (0, [])
      = (Inl (Error ''!''), snd (always_fails (0, [])))"
    by blast
  have m: "maxAttempts database_retry = 3"
    by (simp add: database_retry_def new_RetryOperation_def or_default_def)
  have h1: "int 2 < maxAttempts database_retry
      \<and> (\<forall>j<2. isl (fst (fails_twice
                   (attempt_world recording_runtime database_retry fails_twice (0, []) j))))
      \<and> fst (fails_twice (attempt_world recording_runtime database_retry fails_twice (0, []) 2))
          = Inr 2"
    using fails_twice_calls [of database_retry "(0, [])"]
    by (simp add: m fails_twice_def)
  have h2: "1 \<le> maxAttempts database_retry
      \<and> (\<forall>j<nat (maxAttempts database_retry).
            fst (always_fails (attempt_world recording_runtime database_retry always_fails (0, []) j))
              = Inl (Error (replicate (Suc j) CHR ''!'')))"
    using always_fails_calls [of database_retry "(0, [])"]
    by (simp add: m always_fails_def)
  from retry_result_and_exhaustion
    [where k = 2 and r = database_retry and operation = fails_twice and rt = recording_runtime
       and w = "(0, [])" and v = 2]
    h1
  have "RetryOperation_execute recording_runtime database_retry fails_twice (0, []) =
          (Inr (Some 2),
           snd (fails_twice (attempt_world recording_runtime database_retry fails_twice (0, []) 2)))"
    by blast
  moreover have
    "snd (fails_twice (attempt_world recording_runtime database_retry fails_twice (0, []) 2))
       = (3, [1000, 2000])"
    by code_simp
  moreover from retry_result_and_exhaustion
    [where r = database_retry and operation = always_fails and rt = recording_runtime
       and w = "(0, [])" and errors = "\<lambda>j. Error (replicate (Suc j) CHR ''!'')"]
    h2
  have "fst (RetryOperation_execute recording_runtime database_retry always_fails (0, []))
          = Inl (Error (replicate (Suc (nat (maxAttempts database_retry) - 1)) CHR ''!''))"
    by blast
  moreover have "replicate (Suc (nat (maxAttempts database_retry) - 1)) CHR ''!'' = ''!!!''"
    by code_simp
  ultimately show ?thesis using once by (simp add: always_fails_def)
qed

text \<open>
  C8 as stated fails: with the settings of db.js and an operation whose calls throw
  \<open>Error('!')\<close>, \<open>Error('!!')\<close> and \<open>Error('!!!')\<close>, what \<open>execute\<close> throws after the third
  attempt is what the third call threw, the plain \<open>Error('!!!')\<close>; and with a single
  attempt what \<open>execute\<close> throws is what the one call threw, so that an exhausted retry
  and a failed call cannot be told apart. No \<open>RetryExhausted\<close> error is made anywhere.
\<close>

theorem exhaustion_rethrows_the_last_error_counterexample:
  "fst (RetryOperation_execute recording_runtime database_retry always_fails (0, []))
     = Inl (Error ''!!!'')
 \<and> fst (always_fails (2, [1000, 2000])) = Inl (Error ''!!!'')
 \<and> fst (RetryOperation_execute recording_runtime single_attempt always_fails (0, []))
     = Inl (Error ''!'')
 \<and> fst (always_fails (0, [])) = Inl (Error ''!'')"
  by code_simp

section \<open>The connection supervisor\<close>

text \<open>A connection attempt that the retry executor reports as a success has set the fields.\<close>

lemma retry_loop_connect_success:
  "retry_loop (monitor_runtime rt) r (connect_attempt start) attempt mw = (Inr x, mw')
   \<Longrightarrow> attempt \<le> maxAttempts r
   \<Longrightarrow> isConnected (fst mw') \<and> reconnectAttempts (fst mw') = 0"
proof (induction "monitor_runtime rt" r "connect_attempt start :: (HiveMonitor \<times> 'a, unit) operation"
    attempt mw rule: retry_loop.induct)
  case (1 r attempt mw)
  show ?case
  proof (cases "fst (connect_attempt start mw)")
    case (Inr u)
    with "1.prems" have "mw' = snd (connect_attempt start mw)"
      by (subst (asm) retry_loop.simps) simp
    with Inr show ?thesis
      by (simp add: connect_attempt_def Let_def split: sum.splits)
  next
    case (Inl e)
    show ?thesis
    proof (cases "attempt = maxAttempts r")
      case True
      with Inl "1.prems" show ?thesis
        by (subst (asm) retry_loop.simps) simp
    next
      case False
      with Inl "1.prems"
      have rec: "retry_loop (monitor_runtime rt) r (connect_attempt start) (attempt + 1)
          (sleep (monitor_runtime rt) (delay r * backoffFactor r ^ nat (attempt - 1))
             (snd (connect_attempt start mw))) = (Inr x, mw')"
        by (subst (asm) retry_loop.simps) simp
      from False "1.prems"(2) have "attempt + 1 \<le> maxAttempts r" by simp
      from "1.hyps" [OF "1.prems"(2) Inl False rec this] show ?thesis .
    qed
  qed
qed

lemma connect_success:
  assumes "\<not> isConnected m" and "1 \<le> maxAttempts (retry m)"
    and "fst (connect rt start m w) = Inr u"
  shows "isConnected (fst (snd (connect rt start m w)))
       \<and> reconnectAttempts (fst (snd (connect rt start m w))) = 0"
proof -
  let ?op = "RetryOperation_execute (monitor_runtime rt) (retry m) (connect_attempt start)"
  let ?r = "CircuitBreaker_execute (monitor_runtime rt) (circuitBreaker m) ?op (m, w)"
  from assms(1,3) obtain v where r: "fst ?r = Inr v"
    by (cases "fst ?r") (simp_all add: connect_def Let_def)
  have ran: "fst ?r = fst (?op (m, w)) \<and> snd (snd ?r) = snd (?op (m, w))"
    using r
    by (auto simp: CircuitBreaker_execute_def attempt_call_def split: if_splits sum.splits)
  with r have "retry_loop (monitor_runtime rt) (retry m) (connect_attempt start) 1 (m, w)
      = (Inr v, snd (snd ?r))"
    by (simp add: RetryOperation_execute_def prod_eq_iff)
  from retry_loop_connect_success [OF this assms(2)]
  show ?thesis using assms(1) by (simp add: connect_def Let_def)
qed

text \<open>
  C9 (reconnect budget). A \<open>handleDisconnect\<close> made while \<open>reconnectAttempts\<close> is below
  \<open>maxReconnectAttempts\<close> marks the supervisor disconnected, drops the observer, adds one
  to the counter, suspends for \<open>reconnectDelay\<close>, whatever the counter is, and then does
  what \<open>connect()\<close> does; when that \<open>connect()\<close> succeeds the supervisor is connected and
  \<open>reconnectAttempts\<close> is 0. Once \<open>reconnectAttempts\<close> has reached \<open>maxReconnectAttempts\<close>,
  \<open>handleDisconnect\<close> neither suspends nor connects: it fails with the error
  \<open>Failed to maintain Hive connection\<close> and leaves the world as it was. A new supervisor
  has \<open>maxReconnectAttempts = 5\<close> and \<open>reconnectDelay = 5000\<close> ms.
\<close>

theorem reconnect_budget:
  "(reconnectAttempts m < maxReconnectAttempts m
      \<longrightarrow> handleDisconnect rt start m w =
            connect rt start
              (m\<lparr>isConnected := False, observer := None,
                 reconnectAttempts := reconnectAttempts m + 1\<rparr>)
              (sleep rt (reconnectDelay m) w))
 \<and> (reconnectAttempts m < maxReconnectAttempts m \<and> 1 \<le> maxAttempts (retry m)
      \<and> fst (handleDisconnect rt start m w) = Inr ()
      \<longrightarrow> isConnected (fst (snd (handleDisconnect rt start m w)))
        \<and> reconnectAttempts (fst (snd (handleDisconnect rt start m w))) = 0)
 \<and> (maxReconnectAttempts m \<le> reconnectAttempts m
      \<longrightarrow> handleDisconnect rt start m w =
            (Inl (Error ''Failed to maintain Hive connection''),
             m\<lparr>isConnected := False, observer := None\<rparr>, w))
 \<and> maxReconnectAttempts new_HiveMonitor = 5 \<and> reconnectDelay new_HiveMonitor = 5000"
proof (intro conjI impI)
  assume "reconnectAttempts m < maxReconnectAttempts m"
  then show "handleDisconnect rt start m w =
            connect rt start
              (m\<lparr>isConnected := False, observer := None,
                 reconnectAttempts := reconnectAttempts m + 1\<rparr>)
              (sleep rt (reconnectDelay m) w)"
    by (simp add: handleDisconnect_def Let_def)
next
  assume a: "reconnectAttempts m < maxReconnectAttempts m \<and> 1 \<le> maxAttempts (retry m)
      \<and> fst (handleDisconnect rt start m w) = Inr ()"
  let ?m = "m\<lparr>isConnected := False, observer := None,
               reconnectAttempts := reconnectAttempts m + 1\<rparr>"
  let ?w = "sleep rt (reconnectDelay m) w"
  from a have eq: "handleDisconnect rt start m w = connect rt start ?m ?w"
    by (simp add: handleDisconnect_def Let_def)
  have "\<not> isConnected ?m" and "1 \<le> maxAttempts (retry ?m)" using a by simp_all
  moreover have "fst (connect rt start ?m ?w) = Inr ()" using a eq by simp
  ultimately have "isConnected (fst (snd (connect rt start ?m ?w)))
       \<and> reconnectAttempts (fst (snd (connect rt start ?m ?w))) = 0"
    by (rule connect_success)
  then show "isConnected (fst (snd (handleDisconnect rt start m w)))"
    and "reconnectAttempts (fst (snd (handleDisconnect rt start m w))) = 0"
    using eq by simp_all
next
  assume "maxReconnectAttempts m \<le> reconnectAttempts m"
  then show "handleDisconnect rt start m w =
            (Inl (Error ''Failed to maintain Hive connection''),
             m\<lparr>isConnected := False, observer := None\<rparr>, w)"
    by (simp add: handleDisconnect_def Let_def)
next
  show "maxReconnectAttempts new_HiveMonitor = 5" by (simp add: new_HiveMonitor_def)
  show "reconnectDelay new_HiveMonitor = 5000" by (simp add: new_HiveMonitor_def)
qed

lemma dropped_monitor_reconnects:
  "fst (handleDisconnect clock_runtime start_ok dropped_monitor 0) = Inr ()
 \<and> snd (snd (handleDisconnect clock_runtime start_ok dropped_monitor 0)) = 5001"
  by code_simp

lemma dropped_monitor_upstream_down:
  "fst (handleDisconnect clock_runtime start_down dropped_monitor 0) = Inl (Error ''ECONNREFUSED'')
 \<and> reconnectAttempts (fst (snd (handleDisconnect clock_runtime start_down dropped_monitor 0))) = 3
 \<and> snd (snd (handleDisconnect clock_runtime start_down dropped_monitor 0)) = 45630"
  by code_simp

text \<open>
  A supervisor with two attempts used reconnects after 5000 ms when the upstream client
  starts, and is connected with the counter at 0; a supervisor with five attempts used
  fails at once.
\<close>

theorem reconnect_budget_witness:
  "fst (handleDisconnect clock_runtime start_ok dropped_monitor 0) = Inr ()
 \<and> snd (snd (handleDisconnect clock_runtime start_ok dropped_monitor 0)) = 5001
 \<and> isConnected (fst (snd (handleDisconnect clock_runtime start_ok dropped_monitor 0)))
 \<and> reconnectAttempts (fst (snd (handleDisconnect clock_runtime start_ok dropped_monitor 0))) = 0
 \<and> handleDisconnect clock_runtime start_ok exhausted_monitor 0
     = (Inl (Error ''Failed to maintain Hive connection''),
        exhausted_monitor\<lparr>isConnected := False, observer := None\<rparr>, 0)"
proof -
  have h1: "reconnectAttempts dropped_monitor < maxReconnectAttempts dropped_monitor
      \<and> 1 \<le> maxAttempts (retry dropped_monitor)
      \<and> fst (handleDisconnect clock_runtime start_ok dropped_monitor 0) = Inr ()"
    using dropped_monitor_reconnects
    by (simp add: dropped_monitor_def new_HiveMonitor_def new_RetryOperation_def or_default_def)
  have h2: "maxReconnectAttempts exhausted_monitor \<le> reconnectAttempts exhausted_monitor"
    by (simp add: exhausted_monitor_def new_HiveMonitor_def)
  from reconnect_budget
    [where m = dropped_monitor and rt = clock_runtime and start = start_ok and w = 0]
    h1
  have "isConnected (fst (snd (handleDisconnect clock_runtime start_ok dropped_monitor 0)))
      \<and> reconnectAttempts (fst (snd (handleDisconnect clock_runtime start_ok dropped_monitor 0))) = 0"
    by blast
  moreover from reconnect_budget
    [where m = exhausted_monitor and rt = clock_runtime and start = start_ok and w = 0]
    h2
  have "handleDisconnect clock_runtime start_ok exhausted_monitor 0
     = (Inl (Error ''Failed to maintain Hive connection''),
        exhausted_monitor\<lparr>isConnected := False, observer := None\<rparr>, 0)"
    by blast
  ultimately show ?thesis using dropped_monitor_reconnects by simp
qed

end
